theory Spec2Isabelle
  imports Complex_Main "HOL-Library.Word" "HOL-Library.Product_Lexorder" "HOL-Library.Multiset"
begin

text \<open>
  A shallow embedding of \<open>src/main.py\<close>: the extraction of transactions and of Tether
  transfer logs from a chain client, the join of the two in Spark SQL, and the queries
  over the join that the properties below are about.

  \<^item> Python integers are \<open>int\<close>, Python floats and Spark doubles are binary64 numbers,
    \<open>Decimal\<close> values are the rationals they denote.
  \<^item> The \<open>web3\<close> client is a record of functions whose results are \<open>Inl\<close> of the text of
    the exception raised or \<open>Inr\<close> of the value returned; it answers a call the same way
    throughout a run, and its answers have the fields the source reads.
  \<^item> A raise of the source is an \<open>Inl\<close> result carrying what the message interpolates.
  \<^item> A data frame or view is the list of its rows; \<open>createDataFrame\<close> keeps the rows of the
    Python list as they are. Spark fixes the rows of a join as a multiset, not their
    order: the list of the join takes them in the order of its inputs, as one of the
    orders they may have. A query whose result SQL leaves open (\<open>ORDER BY ... LIMIT\<close> with
    equal keys) is a relation between the rows and a result; predicates follow SQL's
    three-valued logic where a column can be null.
\<close>

section \<open>Values\<close>

text \<open>
  A Python \<open>float\<close> and a Spark \<open>DoubleType\<close> value is an IEEE binary64 number. A finite
  one is modelled by the rational number it denotes; the two zeros are identified (they
  compare equal in Python and in Spark's ordering).
\<close>

datatype double = Finite rat | PosInf | NegInf | NaN

type_synonym bytes = "8 word list"

subsection \<open>\<open>HexBytes.hex()\<close> and \<open>int.from_bytes(_, byteorder='big')\<close>\<close>

definition hexdigit :: "nat \<Rightarrow> char" where
  "hexdigit n = ''0123456789abcdef'' ! n"

definition hex_byte :: "8 word \<Rightarrow> string" where
  "hex_byte b = [hexdigit (unat b div 16), hexdigit (unat b mod 16)]"

text \<open>\<open>HexBytes.hex()\<close>: two lower-case digits per byte, no prefix (the source prepends
  \<open>"0x"\<close> itself, lines 75, 101 and 102).\<close>

definition hex :: "bytes \<Rightarrow> string" where
  "hex bs = concat (map hex_byte bs)"

definition from_bytes_big :: "bytes \<Rightarrow> int" where
  "from_bytes_big bs = foldl (\<lambda>acc b. acc * 256 + uint b) 0 bs"

text \<open>Python's slice \<open>s[-40:]\<close>: the last 40 characters, the whole string when it is shorter.\<close>

definition last40 :: "string \<Rightarrow> string" where
  "last40 s = drop (length s - 40) s"

subsection \<open>Binary64 arithmetic\<close>

text \<open>The number of binary digits of a positive integer.\<close>

function bitlen :: "int \<Rightarrow> int" where
  "bitlen n = (if n \<le> 0 then 0 else 1 + bitlen (n div 2))"
  by pat_completeness auto
termination
  by (relation "measure nat") auto

declare bitlen.simps [simp del]

definition pow2 :: "int \<Rightarrow> rat" where
  "pow2 e = (if 0 \<le> e then 2 ^ nat e else 1 / 2 ^ nat (- e))"

text \<open>For \<open>x > 0\<close>, the exponent \<open>e\<close> with \<open>2^e \<le> x < 2^(e+1)\<close>, found from the bit lengths
  of numerator and denominator.\<close>

definition floor_log2 :: "rat \<Rightarrow> int" where
  "floor_log2 x =
     (let (a, b) = quotient_of x;
          d = bitlen a - bitlen b
      in if pow2 d \<le> x then d else d - 1)"

definition round_half_even :: "rat \<Rightarrow> int" where
  "round_half_even x =
     (let f = \<lfloor>x\<rfloor>; r = x - of_int f
      in if r < 1 / 2 then f
         else if 1 / 2 < r then f + 1
         else if even f then f else f + 1)"

text \<open>
  Rounding an exact result to binary64, round-half-to-even: 53 significant bits, the
  exponent of the leading bit at least \<open>-1022\<close> (below that the spacing stays \<open>2^-1074\<close>,
  the subnormal range), and an infinity once the rounded magnitude reaches \<open>2^1024\<close>.
\<close>

definition round_binary64 :: "rat \<Rightarrow> double" where
  "round_binary64 x =
     (if x = 0 then Finite 0
      else let e = max (floor_log2 \<bar>x\<bar>) (- 1022);
               q = pow2 (e - 52);
               y = of_int (round_half_even (x / q)) * q
           in if 2 ^ 1024 \<le> \<bar>y\<bar> then (if 0 < x then PosInf else NegInf)
              else Finite y)"

text \<open>What an exception caught by one of the source's \<open>except Exception as e\<close> handlers
  can be: a failure of the chain client (with its text), or one of the Python errors the
  statements inside the \<open>try\<close> raise.\<close>

datatype cause =
    ClientFailure string
  | ZeroDivisionError
  | OverflowError
  | IndexError
  | ValueError
  | InvalidOperation

text \<open>Python's \<open>a / b\<close> on two \<open>int\<close>s: the correctly rounded quotient, \<open>OverflowError\<close>
  when it is too large for a float.\<close>

definition int_truediv :: "int \<Rightarrow> int \<Rightarrow> cause + double" where
  "int_truediv a b =
     (if b = 0 then Inl ZeroDivisionError
      else case round_binary64 (of_int a / of_int b) of
             Finite y \<Rightarrow> Inr (Finite y)
           | _ \<Rightarrow> Inl OverflowError)"

text \<open>The conversion of an \<open>int\<close> operand to \<open>float\<close>.\<close>

definition int_to_float :: "int \<Rightarrow> cause + double" where
  "int_to_float n =
     (case round_binary64 (of_int n) of
        Finite y \<Rightarrow> Inr (Finite y)
      | _ \<Rightarrow> Inl OverflowError)"

definition double_sgn :: "double \<Rightarrow> int" where
  "double_sgn d =
     (case d of
        Finite x \<Rightarrow> (if x < 0 then - 1 else if x = 0 then 0 else 1)
      | PosInf \<Rightarrow> 1
      | NegInf \<Rightarrow> - 1
      | NaN \<Rightarrow> 0)"

text \<open>IEEE multiplication: correctly rounded on finite operands (overflow gives an
  infinity, no exception); an infinity times zero is NaN.\<close>

definition double_mul :: "double \<Rightarrow> double \<Rightarrow> double" where
  "double_mul a b =
     (case (a, b) of
        (NaN, _) \<Rightarrow> NaN
      | (_, NaN) \<Rightarrow> NaN
      | (Finite x, Finite y) \<Rightarrow> round_binary64 (x * y)
      | _ \<Rightarrow> (if double_sgn a * double_sgn b = 0 then NaN
              else if 0 < double_sgn a * double_sgn b then PosInf else NegInf))"

text \<open>Python's \<open>p * g\<close> with \<open>p\<close> a float and \<open>g\<close> an int (line 39).\<close>

definition float_mul_int :: "double \<Rightarrow> int \<Rightarrow> cause + double" where
  "float_mul_int p g =
     (case int_to_float g of
        Inl e \<Rightarrow> Inl e
      | Inr gf \<Rightarrow> Inr (double_mul p gf))"

text \<open>The order of doubles in comparisons and in \<open>ORDER BY\<close>: \<open>-inf\<close>, the finite numbers,
  \<open>+inf\<close>, and NaN last.\<close>

definition double_key :: "double \<Rightarrow> nat \<times> rat" where
  "double_key d = (case d of NegInf \<Rightarrow> (0, 0) | Finite x \<Rightarrow> (1, x) | PosInf \<Rightarrow> (2, 0) | NaN \<Rightarrow> (3, 0))"

subsection \<open>Decimal arithmetic\<close>

text \<open>
  \<open>w3.from_wei(number, 'mwei')\<close>: 0 for 0, \<open>ValueError\<close> outside \<open>1 .. 2^256 - 1\<close>, and
  otherwise the \<open>Decimal\<close> quotient by \<open>10^6\<close>, exact at the 999 digits of precision it is
  computed with. A \<open>Decimal\<close> is modelled by the rational number it denotes.
\<close>

definition from_wei_mwei :: "int \<Rightarrow> cause + rat" where
  "from_wei_mwei number =
     (if number = 0 then Inr 0
      else if number < 1 \<or> 2 ^ 256 - 1 < number then Inl ValueError
      else Inr (of_int number / 10 ^ 6))"

text \<open>
  \<open>round(d, 2)\<close> on a \<open>Decimal\<close>: quantize to two decimal places, round-half-even, in the
  default context; \<open>InvalidOperation\<close> when the result needs more than the context's 28
  digits.
\<close>

definition round_2 :: "rat \<Rightarrow> cause + rat" where
  "round_2 d =
     (let c = round_half_even (d * 100)
      in if 10 ^ 28 \<le> \<bar>c\<bar> then Inl InvalidOperation else Inr (of_int c / 100))"

text \<open>Lines 93 to 95: the data payload as a big-endian integer, converted to USDT and
  rounded (\<open>Decimal(str(value_usdt))\<close> denotes the same number as \<open>value_usdt\<close>).\<close>

definition value_usdt_decimal :: "bytes \<Rightarrow> cause + rat" where
  "value_usdt_decimal data =
     (let value_in_wei = from_bytes_big data
      in case from_wei_mwei value_in_wei of
           Inl e \<Rightarrow> Inl e
         | Inr w \<Rightarrow> round_2 w)"

section \<open>Records\<close>

text \<open>The dictionary appended at lines 41 to 51 of \<open>get_transactions\<close>; \<open>tx['to']\<close> is
  \<open>None\<close> for a contract creation.\<close>

record transaction =
  t_block_number :: int
  t_timestamp :: int
  t_from_address :: string
  t_to_address :: "string option"
  t_value :: double
  t_transaction_hash :: string
  t_gas_price :: double
  t_gas_used :: int
  t_gas_fee :: double

text \<open>The dictionary built at lines 98 to 105 of \<open>get_logs_tether\<close>. Every entry is the
  result of a string concatenation, a \<open>Decimal\<close> construction or a field read, so none is
  \<open>None\<close>.\<close>

record log_tether =
  l_block_number :: int
  l_timestamp :: int
  l_from_address :: string
  l_to_address :: string
  l_value_usdt :: rat
  l_transaction_hash :: string

text \<open>A row of the view \<open>df_transactions_complete\<close> (lines 428 to 448). The three columns
  read from the right side of the left join are nullable.\<close>

record unified =
  block_number :: int
  unix_timestamp :: int
  timestamp :: int
  transaction_hash :: string
  tx_from_address :: string
  tx_to_address :: "string option"
  tx_value_eth :: double
  tx_gas_price_eth :: double
  tx_gas_used :: int
  tx_gas_fee_eth :: double
  log_from_address :: "string option"
  log_to_address :: "string option"
  log_value_usdt :: "rat option"

text \<open>
  The query engine's scalar functions used by the join are parameters: \<open>ROUND(x, s)\<close> on a
  double, and \<open>from_utc_timestamp(FROM_UNIXTIME(ts), 'Europe/Madrid')\<close>.
\<close>

record engine =
  ROUND :: "double \<Rightarrow> nat \<Rightarrow> double"
  madrid_timestamp :: "int \<Rightarrow> int"

section \<open>The chain client\<close>

text \<open>
  What the \<open>web3\<close> client returns, as far as the source reads it: the fields \<open>hash\<close>,
  \<open>gasPrice\<close>, \<open>from\<close>, \<open>to\<close> and \<open>value\<close> of a transaction, \<open>timestamp\<close> and
  \<open>transactions\<close> of a block, \<open>gasUsed\<close> of a receipt, and \<open>data\<close>, \<open>blockNumber\<close>,
  \<open>topics\<close> and \<open>transactionHash\<close> of a log.
\<close>

record tx_body =
  tx_hash :: bytes
  tx_gasPrice :: int
  tx_from :: string
  tx_to :: "string option"
  tx_value :: int

record block =
  block_timestamp :: int
  block_transactions :: "tx_body list"

record receipt =
  gasUsed :: int

record log_entry =
  log_data :: bytes
  log_blockNumber :: int
  log_topics :: "bytes list"
  log_transactionHash :: bytes

record filter_params =
  fromBlock :: int
  toBlock :: int
  address :: string
  topics :: "string list"

text \<open>
  The client's capabilities. A call either returns or raises; a raised exception is
  \<open>Inl\<close> of its text. \<open>get_block\<close> takes the block number and \<open>full_transactions\<close>.
\<close>

record chain_client =
  is_connected :: bool
  eth_block_number :: "string + int"
  get_block :: "int \<Rightarrow> bool \<Rightarrow> string + block"
  get_transaction_receipt :: "bytes \<Rightarrow> string + receipt"
  get_logs :: "filter_params \<Rightarrow> string + log_entry list"

text \<open>
  The exceptions the source raises, by the message they carry:
  \<^item> \<open>Error fetching block {block_number}: {e}\<close> (line 32),
  \<^item> \<open>Error fetching block transactions for block {block_number}: {e}\<close> (line 53),
  \<^item> \<open>Error fetching logs: {e}\<close> (line 87),
  \<^item> \<open>Error processing log {log['transactionHash']}: {e}\<close> (line 109),
  and a client exception that no handler catches (line 416).
\<close>

datatype error =
    ErrorFetchingBlock int cause
  | ErrorFetchingBlockTransactions int cause
  | ErrorFetchingLogs cause
  | ErrorProcessingLog bytes cause
  | Uncaught cause

section \<open>\<open>get_transactions\<close>\<close>

definition wei_to_eth :: int where
  "wei_to_eth = 10 ^ 18"

text \<open>The body of the inner \<open>try\<close>, lines 36 to 51, for one transaction of one block.\<close>

definition transaction_record ::
  "chain_client \<Rightarrow> int \<Rightarrow> block \<Rightarrow> tx_body \<Rightarrow> cause + transaction" where
  "transaction_record w3 block_num blk tx =
     (case get_transaction_receipt w3 (tx_hash tx) of
        Inl e \<Rightarrow> Inl (ClientFailure e)
      | Inr tx_receipt \<Rightarrow>
     (case int_truediv (tx_gasPrice tx) wei_to_eth of
        Inl e \<Rightarrow> Inl e
      | Inr gas_price \<Rightarrow>
     (let gas_used = gasUsed tx_receipt in
      case float_mul_int gas_price gas_used of
        Inl e \<Rightarrow> Inl e
      | Inr gas_fee \<Rightarrow>
     (case int_truediv (tx_value tx) wei_to_eth of
        Inl e \<Rightarrow> Inl e
      | Inr v \<Rightarrow>
          Inr \<lparr> t_block_number = block_num,
                t_timestamp = block_timestamp blk,
                t_from_address = tx_from tx,
                t_to_address = tx_to tx,
                t_value = v,
                t_transaction_hash = hex (tx_hash tx),
                t_gas_price = gas_price,
                t_gas_used = gas_used,
                t_gas_fee = gas_fee \<rparr>))))"

text \<open>The loop over the transactions of a block, lines 34 to 53; \<open>transactions\<close> is the
  list appended to.\<close>

fun block_loop ::
  "chain_client \<Rightarrow> int \<Rightarrow> block \<Rightarrow> tx_body list \<Rightarrow> transaction list
   \<Rightarrow> error + transaction list" where
  "block_loop w3 block_num blk [] transactions = Inr transactions"
| "block_loop w3 block_num blk (tx # txs) transactions =
     (case transaction_record w3 block_num blk tx of
        Inl e \<Rightarrow> Inl (ErrorFetchingBlockTransactions block_num e)
      | Inr r \<Rightarrow> block_loop w3 block_num blk txs (transactions @ [r]))"

text \<open>The loop over the block numbers, lines 28 to 53.\<close>

fun range_loop ::
  "chain_client \<Rightarrow> int list \<Rightarrow> transaction list \<Rightarrow> error + transaction list" where
  "range_loop w3 [] transactions = Inr transactions"
| "range_loop w3 (block_num # rest) transactions =
     (case get_block w3 block_num True of
        Inl e \<Rightarrow> Inl (ErrorFetchingBlock block_num (ClientFailure e))
      | Inr blk \<Rightarrow>
     (case block_loop w3 block_num blk (block_transactions blk) transactions of
        Inl err \<Rightarrow> Inl err
      | Inr transactions' \<Rightarrow> range_loop w3 rest transactions'))"

text \<open>\<open>range(from_block, latest_block + 1)\<close> is \<open>[from_block..latest_block]\<close>. The data
  frame holds the rows of the list in order.\<close>

definition get_transactions :: "chain_client \<Rightarrow> int \<Rightarrow> int \<Rightarrow> error + transaction list" where
  "get_transactions w3 from_block latest_block = range_loop w3 [from_block..latest_block] []"

section \<open>\<open>get_logs_tether\<close>\<close>

definition contract_address :: string where
  "contract_address = ''0xdAC17F958D2ee523a2206206994597C13D831ec7''"

text \<open>\<open>"0x" + Web3.keccak(text="Transfer(address,address,uint256)").hex()\<close>.\<close>

definition transfer_event_signature :: string where
  "transfer_event_signature =
     ''0xddf252ad1be2c89b69c2b068fc378daa952ba7f163c4a11628f55a4df523b3ef''"

definition filter_params :: "int \<Rightarrow> int \<Rightarrow> filter_params" where
  "filter_params from_block latest_block =
     \<lparr> fromBlock = from_block, toBlock = latest_block,
       address = contract_address, topics = [transfer_event_signature] \<rparr>"

text \<open>\<open>"0x" + log['topics'][i].hex()[-40:]\<close>, with the \<open>IndexError\<close> of a missing topic.\<close>

definition topic_address :: "bytes list \<Rightarrow> nat \<Rightarrow> cause + string" where
  "topic_address tps i =
     (if i < length tps then Inr (''0x'' @ last40 (hex (tps ! i))) else Inl IndexError)"

text \<open>The body of the \<open>try\<close>, lines 93 to 105, for one log.\<close>

definition log_record :: "chain_client \<Rightarrow> log_entry \<Rightarrow> cause + log_tether" where
  "log_record w3 lg =
     (case value_usdt_decimal (log_data lg) of
        Inl e \<Rightarrow> Inl e
      | Inr value_usdt \<Rightarrow>
     (case get_block w3 (log_blockNumber lg) False of
        Inl e \<Rightarrow> Inl (ClientFailure e)
      | Inr block_info \<Rightarrow>
     (case topic_address (log_topics lg) 1 of
        Inl e \<Rightarrow> Inl e
      | Inr from_addr \<Rightarrow>
     (case topic_address (log_topics lg) 2 of
        Inl e \<Rightarrow> Inl e
      | Inr to_addr \<Rightarrow>
          Inr \<lparr> l_block_number = log_blockNumber lg,
                l_timestamp = block_timestamp block_info,
                l_from_address = from_addr,
                l_to_address = to_addr,
                l_value_usdt = value_usdt,
                l_transaction_hash = hex (log_transactionHash lg) \<rparr>))))"

fun logs_loop :: "chain_client \<Rightarrow> log_entry list \<Rightarrow> log_tether list \<Rightarrow> error + log_tether list" where
  "logs_loop w3 [] logs_tether = Inr logs_tether"
| "logs_loop w3 (lg # logs) logs_tether =
     (case log_record w3 lg of
        Inl e \<Rightarrow> Inl (ErrorProcessingLog (log_transactionHash lg) e)
      | Inr r \<Rightarrow> logs_loop w3 logs (logs_tether @ [r]))"

definition get_logs_tether :: "chain_client \<Rightarrow> int \<Rightarrow> int \<Rightarrow> error + log_tether list" where
  "get_logs_tether w3 from_block latest_block =
     (case get_logs w3 (filter_params from_block latest_block) of
        Inl e \<Rightarrow> Inl (ErrorFetchingLogs (ClientFailure e))
      | Inr logs \<Rightarrow> logs_loop w3 logs [])"

section \<open>The engine's \<open>ROUND\<close>\<close>

text \<open>
  Spark's \<open>ROUND(d, s)\<close> on a double is \<open>BigDecimal(d).setScale(s, HALF_UP).toDouble\<close>,
  with infinities and NaN returned as they are. The \<open>BigDecimal\<close> of a double is the decimal
  that \<open>Double.toString\<close> prints, not the exact binary value: as Java specifies it, of the
  decimals that round to the double, one with the fewest digits, but with two digits where
  one would do, and of those the nearest to the double (the one with the even last digit
  when two are as near). This is the \<open>ROUND\<close> of the engine in the examples below; the
  general statements hold for every engine.
\<close>

text \<open>The number of decimal digits of a positive integer, and the decimal exponent of a
  positive rational.\<close>

function declen :: "int \<Rightarrow> int" where
  "declen n = (if n \<le> 0 then 0 else 1 + declen (n div 10))"
  by pat_completeness auto
termination
  by (relation "measure nat") auto

declare declen.simps [simp del]

definition pow10 :: "int \<Rightarrow> rat" where
  "pow10 e = (if 0 \<le> e then 10 ^ nat e else 1 / 10 ^ nat (- e))"

definition floor_log10 :: "rat \<Rightarrow> int" where
  "floor_log10 x =
     (let (a, b) = quotient_of x;
          d = declen a - declen b
      in if pow10 d \<le> x then d else d - 1)"

text \<open>A decimal is a pair of its digits, as an integer, and the unit of its last digit.
  The two decimals of \<open>n\<close> digits next to \<open>x > 0\<close>, below and above.\<close>

definition decimal_value :: "int \<times> rat \<Rightarrow> rat" where
  "decimal_value d = of_int (fst d) * snd d"

definition decimals_near :: "rat \<Rightarrow> nat \<Rightarrow> (int \<times> rat) list" where
  "decimals_near x n =
     (let u = pow10 (floor_log10 x - int n + 1);
          c = \<lfloor>x / u\<rfloor>
      in [(c, u), (c + 1, u)])"

text \<open>Those of them that round to the double \<open>x\<close>.\<close>

definition decimals_of :: "rat \<Rightarrow> nat \<Rightarrow> (int \<times> rat) list" where
  "decimals_of x n =
     filter (\<lambda>d. round_binary64 (decimal_value d) = Finite x) (decimals_near x n)"

definition nearest_decimal :: "rat \<Rightarrow> (int \<times> rat) list \<Rightarrow> rat" where
  "nearest_decimal x ds =
     (case ds of
        [] \<Rightarrow> x
      | [d] \<Rightarrow> decimal_value d
      | d # e # _ \<Rightarrow>
          (if \<bar>decimal_value d - x\<bar> < \<bar>decimal_value e - x\<bar> then decimal_value d
           else if \<bar>decimal_value e - x\<bar> < \<bar>decimal_value d - x\<bar> then decimal_value e
           else if even (fst d) then decimal_value d else decimal_value e))"

text \<open>The decimal printed for a double \<open>x > 0\<close>. Seventeen digits tell any double from its
  neighbours, so the search ends by then (the exact value stands in where it would not,
  which is for no double).\<close>

definition positive_decimal :: "rat \<Rightarrow> rat" where
  "positive_decimal x =
     (case filter (\<lambda>n. decimals_of x n \<noteq> []) [1..<18] of
        [] \<Rightarrow> x
      | m # _ \<Rightarrow> nearest_decimal x (decimals_of x (max m 2)))"

definition double_to_decimal :: "rat \<Rightarrow> rat" where
  "double_to_decimal x =
     (if x = 0 then 0
      else if x < 0 then - positive_decimal (- x)
      else positive_decimal x)"

definition round_half_up :: "rat \<Rightarrow> int" where
  "round_half_up x = (if 0 \<le> x then \<lfloor>x + 1 / 2\<rfloor> else - \<lfloor>- x + 1 / 2\<rfloor>)"

definition round_double :: "double \<Rightarrow> nat \<Rightarrow> double" where
  "round_double d s =
     (case d of
        Finite x \<Rightarrow>
          round_binary64 (of_int (round_half_up (double_to_decimal x * 10 ^ s)) / 10 ^ s)
      | _ \<Rightarrow> d)"

section \<open>The join of \<open>main\<close>\<close>

text \<open>The \<open>ON\<close> clause, lines 445 to 447. The three columns are never null on either
  side, so SQL equality is plain equality here.\<close>

definition join_on :: "transaction \<Rightarrow> log_tether \<Rightarrow> bool" where
  "join_on t l \<longleftrightarrow>
     t_transaction_hash t = l_transaction_hash l
     \<and> t_block_number t = l_block_number l
     \<and> t_timestamp t = l_timestamp l"

text \<open>The \<open>SELECT\<close> list, lines 430 to 442, on a transaction and the log joined to it
  (\<open>None\<close> when the left join found none).\<close>

definition select_row :: "engine \<Rightarrow> transaction \<Rightarrow> log_tether option \<Rightarrow> unified" where
  "select_row eng t lo =
     \<lparr> block_number = t_block_number t,
       unix_timestamp = t_timestamp t,
       timestamp = madrid_timestamp eng (t_timestamp t),
       transaction_hash = t_transaction_hash t,
       tx_from_address = t_from_address t,
       tx_to_address = t_to_address t,
       tx_value_eth = ROUND eng (t_value t) 2,
       tx_gas_price_eth = ROUND eng (t_gas_price t) 12,
       tx_gas_used = t_gas_used t,
       tx_gas_fee_eth = ROUND eng (t_gas_fee t) 12,
       log_from_address = map_option l_from_address lo,
       log_to_address = map_option l_to_address lo,
       log_value_usdt = map_option l_value_usdt lo \<rparr>"

text \<open>\<open>FROM transactions AS t LEFT JOIN logs_tether AS l ON ...\<close>: the rows one transaction
  contributes. Spark does not fix the order of the rows of a join; the lists here take
  the transactions in the order of the left input and the logs joined to one transaction
  in the order of the right input, as one of the orders the view may have.\<close>

definition left_join_rows :: "engine \<Rightarrow> log_tether list \<Rightarrow> transaction \<Rightarrow> unified list" where
  "left_join_rows eng logs_tether t =
     (case filter (join_on t) logs_tether of
        [] \<Rightarrow> [select_row eng t None]
      | l # ls \<Rightarrow> map (\<lambda>m. select_row eng t (Some m)) (l # ls))"

fun df_transactions_complete ::
  "engine \<Rightarrow> transaction list \<Rightarrow> log_tether list \<Rightarrow> unified list" where
  "df_transactions_complete eng [] logs_tether = []"
| "df_transactions_complete eng (t # ts) logs_tether =
     left_join_rows eng logs_tether t @ df_transactions_complete eng ts logs_tether"

text \<open>\<open>SELECT * FROM df_transactions_complete WHERE log_value_usdt IS NOT NULL\<close>, lines 452
  to 456.\<close>

definition df_logs_tether_clean :: "unified list \<Rightarrow> unified list" where
  "df_logs_tether_clean rows = filter (\<lambda>r. log_value_usdt r \<noteq> None) rows"

section \<open>SQL predicates\<close>

text \<open>SQL's three-valued logic: a comparison with \<open>NULL\<close> is unknown (\<open>None\<close>), and a
  \<open>WHERE\<close> clause keeps the rows on which its predicate is true.\<close>

definition sql_eq :: "'a option \<Rightarrow> 'a option \<Rightarrow> bool option" where
  "sql_eq a b = (case (a, b) of (Some x, Some y) \<Rightarrow> Some (x = y) | _ \<Rightarrow> None)"

definition sql_neq :: "'a option \<Rightarrow> 'a option \<Rightarrow> bool option" where
  "sql_neq a b = (case (a, b) of (Some x, Some y) \<Rightarrow> Some (x \<noteq> y) | _ \<Rightarrow> None)"

definition sql_and :: "bool option \<Rightarrow> bool option \<Rightarrow> bool option" where
  "sql_and p q =
     (if p = Some False \<or> q = Some False then Some False
      else if p = Some True \<and> q = Some True then Some True
      else None)"

definition sql_where :: "('r \<Rightarrow> bool option) \<Rightarrow> 'r list \<Rightarrow> 'r list" where
  "sql_where p rows = filter (\<lambda>r. p r = Some True) rows"

section \<open>\<open>tether_queries\<close>\<close>

definition zero_address :: string where
  "zero_address = ''0x0000000000000000000000000000000000000000''"

text \<open>The burn count, lines 391 to 396, on the rows of \<open>df_logs_tether_clean\<close>.\<close>

definition burning :: "unified list \<Rightarrow> nat" where
  "burning rows =
     length (sql_where (\<lambda>r. sql_and (sql_eq (log_to_address r) (Some zero_address))
                                     (sql_neq (log_from_address r) (Some zero_address))) rows)"

section \<open>\<open>transactions_queries\<close>\<close>

text \<open>
  \<open>ORDER BY key DESC LIMIT n\<close>. SQL leaves open the order of rows with equal keys, and with
  it which of them a \<open>LIMIT\<close> keeps, so the query is a relation between the rows and a
  result it may return: \<open>n\<close> of the rows (all of them when there are fewer), in descending
  order of the key, no row left out having a greater key than a row returned. It does not
  depend on the order of the rows queried.
\<close>

definition order_by_desc_limit ::
  "('r \<Rightarrow> 'k::linorder) \<Rightarrow> nat \<Rightarrow> 'r list \<Rightarrow> 'r list \<Rightarrow> bool" where
  "order_by_desc_limit key n rows result \<longleftrightarrow>
     length result = min n (length rows)
     \<and> mset result \<subseteq># mset rows
     \<and> sorted (rev (map key result))
     \<and> (\<forall>r \<in> set result. \<forall>r' \<in># mset rows - mset result. key r' \<le> key r)"

text \<open>The top 10 transactions by value, lines 135 to 146.\<close>

record value_row =
  v_block_number :: int
  v_timestamp :: int
  v_transaction_hash :: string
  v_tx_from_address :: string
  v_tx_to_address :: "string option"
  v_tx_value_eth :: double

definition value_columns :: "unified \<Rightarrow> value_row" where
  "value_columns r =
     \<lparr> v_block_number = block_number r,
       v_timestamp = timestamp r,
       v_transaction_hash = transaction_hash r,
       v_tx_from_address = tx_from_address r,
       v_tx_to_address = tx_to_address r,
       v_tx_value_eth = tx_value_eth r \<rparr>"

definition tx_value_eth_top_10 :: "unified list \<Rightarrow> value_row list \<Rightarrow> bool" where
  "tx_value_eth_top_10 rows result \<longleftrightarrow>
     order_by_desc_limit (\<lambda>v. double_key (v_tx_value_eth v)) 10 (map value_columns rows) result"

text \<open>The time between blocks, lines 231 to 256. \<open>grouped_data\<close>: one row for each
  \<open>(block_number, timestamp)\<close> of the view, with the greatest \<open>unix_timestamp\<close> of the group,
  ordered by \<open>block_number, timestamp\<close>.\<close>

text \<open>\<open>MAX\<close> over the values of a group: \<open>NULL\<close> for no value at all.\<close>

definition sql_max :: "int list \<Rightarrow> int option" where
  "sql_max xs = (case xs of [] \<Rightarrow> None | x # ys \<Rightarrow> Some (fold max ys x))"

record grouped =
  g_block_number :: int
  g_timestamp :: int
  g_unix_timestamp :: "int option"

definition group_row :: "unified list \<Rightarrow> int \<times> int \<Rightarrow> grouped" where
  "group_row rows k =
     \<lparr> g_block_number = fst k,
       g_timestamp = snd k,
       g_unix_timestamp =
         sql_max (map unix_timestamp
                    (filter (\<lambda>r. (block_number r, timestamp r) = k) rows)) \<rparr>"

definition grouped_data :: "unified list \<Rightarrow> grouped list" where
  "grouped_data rows =
     sort_key (\<lambda>g. (g_block_number g, g_timestamp g))
       (map (group_row rows) (remdups (map (\<lambda>r. (block_number r, timestamp r)) rows)))"

text \<open>\<open>LAG(x) OVER (ORDER BY ...)\<close> on rows already in window order: the value of the row
  before, \<open>NULL\<close> for the first.\<close>

definition lag :: "'a option list \<Rightarrow> 'a option list" where
  "lag xs = (if xs = [] then [] else None # butlast xs)"

text \<open>\<open>timediff_data\<close>: the groups in the window's order (\<open>ORDER BY block_number\<close>), each
  with the \<open>unix_timestamp\<close> of the row before.\<close>

definition timediff_data :: "grouped list \<Rightarrow> (grouped \<times> int option) list" where
  "timediff_data gs =
     (let ordered = sort_key g_block_number gs
      in zip ordered (lag (map g_unix_timestamp ordered)))"

definition sql_minus :: "int option \<Rightarrow> int option \<Rightarrow> int option" where
  "sql_minus a b = (case (a, b) of (Some x, Some y) \<Rightarrow> Some (x - y) | _ \<Rightarrow> None)"

definition coalesce :: "'a option \<Rightarrow> 'a \<Rightarrow> 'a" where
  "coalesce a d = (case a of Some x \<Rightarrow> x | None \<Rightarrow> d)"

record block_time =
  b_block_number :: int
  b_timestamp :: int
  b_unix_timestamp :: "int option"
  unix_prev_timestamp :: "int option"
  time_diff_in_seconds :: int

definition time_between_blocks :: "unified list \<Rightarrow> block_time list" where
  "time_between_blocks rows =
     map (\<lambda>(g, prev).
            \<lparr> b_block_number = g_block_number g,
              b_timestamp = g_timestamp g,
              b_unix_timestamp = g_unix_timestamp g,
              unix_prev_timestamp = prev,
              time_diff_in_seconds = coalesce (sql_minus (g_unix_timestamp g) prev) 0 \<rparr>)
         (timediff_data (grouped_data rows))"

text \<open>The blocks more than 12 seconds after the one before, lines 262 to 270, on the view
  \<open>block_times\<close>; the four selected columns.\<close>

definition block_times_monitoring ::
  "block_time list \<Rightarrow> (int \<times> int \<times> int option \<times> int option) list" where
  "block_times_monitoring block_times =
     map (\<lambda>b. (b_block_number b, b_timestamp b, b_unix_timestamp b, unix_prev_timestamp b))
         (filter (\<lambda>b. 12 < time_diff_in_seconds b) block_times)"

section \<open>\<open>main\<close>\<close>

text \<open>The two status lines of lines 411 and 413, as the bytes printed (the first three
  are the UTF-8 encoding of the mark).\<close>

definition connected_line :: string where
  "connected_line = [CHR 0xE2, CHR 0x9C, CHR 0x85] @ '' Connected to Ethereum'' @ [CHR 0x0A]"

definition connection_failed_line :: string where
  "connection_failed_line = [CHR 0xE2, CHR 0x9D, CHR 0x8C] @ '' Connection failed'' @ [CHR 0x0A]"

text \<open>What a run that reaches the queries has registered and computed: the two views, and
  the results of the queries modelled above (for the top 10 by value, the results it may
  print).\<close>

record run =
  complete_view :: "unified list"
  clean_view :: "unified list"
  top_10_by_value :: "value_row list \<Rightarrow> bool"
  block_times_view :: "block_time list"
  monitoring :: "(int \<times> int \<times> int option \<times> int option) list"
  n_burning_logs :: nat

text \<open>\<open>main\<close>, lines 402 to 473: the status line printed, and the run or the exception
  that ended it.\<close>

definition main :: "engine \<Rightarrow> chain_client \<Rightarrow> string \<times> (error + run)" where
  "main eng w3 =
     (let status = (if is_connected w3 then connected_line else connection_failed_line)
      in (status,
          case eth_block_number w3 of
            Inl e \<Rightarrow> Inl (Uncaught (ClientFailure e))
          | Inr latest_block \<Rightarrow>
         (let from_block = latest_block - 9 in
          case get_transactions w3 from_block latest_block of
            Inl err \<Rightarrow> Inl err
          | Inr df_transactions \<Rightarrow>
         (case get_logs_tether w3 from_block latest_block of
            Inl err \<Rightarrow> Inl err
          | Inr df_logs_tether \<Rightarrow>
         (let complete = df_transactions_complete eng df_transactions df_logs_tether;
              clean = df_logs_tether_clean complete;
              block_times = time_between_blocks complete
          in Inr \<lparr> complete_view = complete,
                   clean_view = clean,
                   top_10_by_value = tx_value_eth_top_10 complete,
                   block_times_view = block_times,
                   monitoring = block_times_monitoring block_times,
                   n_burning_logs = burning clean \<rparr>)))))"

section \<open>Properties of binary64 rounding\<close>

lemma pow2_powi: "pow2 e = 2 powi e"
  by (simp add: pow2_def power_int_def inverse_eq_divide power_one_over)

lemma pow2_pos: "0 < pow2 e"
  by (simp add: pow2_powi)

lemma pow2_add: "pow2 (a + b) = pow2 a * pow2 b"
  by (simp add: pow2_powi power_int_add)

lemma pow2_less_mono: "a < b \<Longrightarrow> pow2 a < pow2 b"
  by (simp add: pow2_powi power_int_strict_increasing)

lemma pow2_le_mono: "a \<le> b \<Longrightarrow> pow2 a \<le> pow2 b"
  by (simp add: pow2_powi power_int_increasing)

lemma pow2_of_nat: "pow2 (int k) = 2 ^ k"
  by (simp add: pow2_def)

lemma bitlen_bounds:
  "0 < n \<Longrightarrow> \<exists>k. bitlen n = int (Suc k) \<and> 2 ^ k \<le> n \<and> n < 2 ^ Suc k"
proof (induction n rule: bitlen.induct)
  case (1 n)
  show ?case
  proof (cases "n div 2 \<le> 0")
    case True
    with "1.prems" have "n = 1" by linarith
    then have "bitlen n = int (Suc 0) \<and> 2 ^ 0 \<le> n \<and> n < 2 ^ Suc 0"
      by (simp add: bitlen.simps)
    then show ?thesis by blast
  next
    case False
    then have pos: "0 < n div 2" by simp
    with "1.prems" "1.IH" obtain k where k: "bitlen (n div 2) = int (Suc k)"
      "2 ^ k \<le> n div 2" "n div 2 < 2 ^ Suc k"
      by fastforce
    from "1.prems" have "bitlen n = 1 + bitlen (n div 2)"
      by (subst bitlen.simps) simp
    with k have "bitlen n = int (Suc (Suc k))" by simp
    moreover from k have "2 ^ Suc k \<le> n" by simp
    moreover from k have "n < 2 ^ Suc (Suc k)" by simp
    ultimately show ?thesis by blast
  qed
qed

lemma floor_log2_bounds:
  assumes "0 < x"
  shows "pow2 (floor_log2 x) \<le> x \<and> x < pow2 (floor_log2 x + 1)"
proof -
  obtain a b where q: "quotient_of x = (a, b)" by (cases "quotient_of x")
  then have x: "x = of_int a / of_int b" and b: "0 < b"
    by (simp_all add: quotient_of_div quotient_of_denom_pos)
  with assms have a: "0 < a"
    by (simp add: zero_less_divide_iff)
  from bitlen_bounds [OF a] obtain ka where ka: "bitlen a = int (Suc ka)"
    "2 ^ ka \<le> a" "a < 2 ^ Suc ka" by blast
  from bitlen_bounds [OF b] obtain kb where kb: "bitlen b = int (Suc kb)"
    "2 ^ kb \<le> b" "b < 2 ^ Suc kb" by blast
  define d where "d = int ka - int kb"
  have d: "bitlen a - bitlen b = d"
    by (simp add: ka kb d_def)
  have ra: "(2::rat) ^ ka \<le> of_int a" "(of_int a :: rat) < 2 ^ Suc ka"
    using ka(2,3) by (metis of_int_le_iff of_int_numeral of_int_power, metis of_int_less_iff of_int_numeral of_int_power)
  have rb: "(2::rat) ^ kb \<le> of_int b" "(of_int b :: rat) < 2 ^ Suc kb"
    using kb(2,3) by (metis of_int_le_iff of_int_numeral of_int_power, metis of_int_less_iff of_int_numeral of_int_power)
  have bpos: "(0::rat) < of_int b" using b by simp
  have upper: "x < pow2 (d + 1)"
  proof -
    have "of_int a < (2::rat) ^ Suc ka" by (rule ra)
    also have "\<dots> = pow2 (d + 1) * 2 ^ kb"
      by (simp add: d_def pow2_of_nat [symmetric] pow2_add [symmetric] del: of_nat_Suc power_Suc)
         (simp add: algebra_simps)
    also have "\<dots> \<le> pow2 (d + 1) * of_int b"
      using rb(1) pow2_pos [of "d + 1"] by (simp add: mult_left_mono)
    finally show ?thesis
      using bpos by (simp add: x pos_divide_less_eq)
  qed
  have lower: "pow2 (d - 1) \<le> x"
  proof -
    have "pow2 (d - 1) * of_int b \<le> pow2 (d - 1) * 2 ^ Suc kb"
      using rb(2) pow2_pos [of "d - 1"] by (simp add: mult_left_mono del: power_Suc)
    also have "\<dots> = 2 ^ ka"
      by (simp add: d_def pow2_of_nat [symmetric] pow2_add [symmetric] del: of_nat_Suc power_Suc)
         (simp add: algebra_simps)
    also have "\<dots> \<le> of_int a" by (rule ra)
    finally show ?thesis
      using bpos by (simp add: x pos_le_divide_eq)
  qed
  show ?thesis
  proof (cases "pow2 d \<le> x")
    case True
    then have "floor_log2 x = d"
      by (simp add: floor_log2_def q d)
    with True upper show ?thesis by simp
  next
    case False
    then have "floor_log2 x = d - 1"
      by (simp add: floor_log2_def q d)
    with False lower show ?thesis by simp
  qed
qed

lemma floor_log2_unique:
  assumes "pow2 e \<le> x" and "x < pow2 (e + 1)"
  shows "floor_log2 x = e"
proof -
  from assms(1) pow2_pos [of e] have "0 < x" by simp
  from floor_log2_bounds [OF this]
  have f: "pow2 (floor_log2 x) \<le> x" "x < pow2 (floor_log2 x + 1)" by simp_all
  have "\<not> e + 1 \<le> floor_log2 x"
  proof
    assume "e + 1 \<le> floor_log2 x"
    then have "pow2 (e + 1) \<le> pow2 (floor_log2 x)" by (rule pow2_le_mono)
    with f(1) assms(2) show False by simp
  qed
  moreover have "\<not> floor_log2 x + 1 \<le> e"
  proof
    assume "floor_log2 x + 1 \<le> e"
    then have "pow2 (floor_log2 x + 1) \<le> pow2 e" by (rule pow2_le_mono)
    with f(2) assms(1) show False by simp
  qed
  ultimately show ?thesis by simp
qed

lemma round_half_even_unique:
  assumes "\<bar>y - of_int n\<bar> < 1 / 2"
  shows "round_half_even y = n"
proof (cases "of_int n \<le> y")
  case True
  with assms have "\<lfloor>y\<rfloor> = n" by (simp add: floor_eq_iff)
  with True assms show ?thesis
    by (simp add: round_half_even_def Let_def)
next
  case False
  with assms have "\<lfloor>y\<rfloor> = n - 1" by (simp add: floor_eq_iff)
  with False assms show ?thesis
    by (simp add: round_half_even_def Let_def)
qed

lemma round_binary64_finite:
  assumes "x \<noteq> 0" and "pow2 e \<le> \<bar>x\<bar>" and "\<bar>x\<bar> < pow2 (e + 1)"
    and "q = pow2 (max e (- 1022) - 52)"
    and "\<bar>x / q - of_int n\<bar> < 1 / 2"
    and "\<bar>of_int n * q\<bar> < 2 ^ 1024"
  shows "round_binary64 x = Finite (of_int n * q)"
proof -
  have "floor_log2 \<bar>x\<bar> = e"
    using assms(2,3) by (rule floor_log2_unique)
  moreover have "round_half_even (x / q) = n"
    using assms(5) by (rule round_half_even_unique)
  ultimately show ?thesis
    using assms(1,6) unfolding round_binary64_def Let_def assms(4) [symmetric]
    by (simp add: assms(4) [symmetric])
qed


lemma round_half_even_nonneg: "0 \<le> y \<Longrightarrow> 0 \<le> round_half_even y"
  by (simp add: round_half_even_def Let_def)

lemma round_binary64_nonneg:
  assumes "0 \<le> x"
  shows "round_binary64 x = PosInf \<or> (\<exists>y. round_binary64 x = Finite y \<and> 0 \<le> y)"
proof (cases "x = 0")
  case True
  then show ?thesis by (simp add: round_binary64_def)
next
  case False
  with assms have pos: "0 < x" by simp
  define q where "q = pow2 (max (floor_log2 \<bar>x\<bar>) (- 1022) - 52)"
  define y where "y = of_int (round_half_even (x / q)) * q"
  have q: "0 < q" by (simp add: q_def pow2_pos)
  with assms have "0 \<le> x / q" by simp
  then have "0 \<le> round_half_even (x / q)" by (rule round_half_even_nonneg)
  with q have y: "0 \<le> y" by (simp add: y_def)
  have rb: "round_binary64 x =
      (if 2 ^ 1024 \<le> \<bar>y\<bar> then (if 0 < x then PosInf else NegInf) else Finite y)"
    unfolding round_binary64_def Let_def y_def q_def using False by simp
  show ?thesis
  proof (cases "2 ^ 1024 \<le> \<bar>y\<bar>")
    case True
    with pos show ?thesis by (simp add: rb)
  next
    case False
    with y show ?thesis by (simp add: rb)
  qed
qed

lemma int_truediv_finite:
  assumes "int_truediv a b = Inr d"
  shows "\<exists>y. d = Finite y"
proof -
  from assms have "(case round_binary64 (of_int a / of_int b) of
      Finite y \<Rightarrow> Inr (Finite y) | _ \<Rightarrow> Inl OverflowError) = Inr d"
    by (simp add: int_truediv_def split: if_splits)
  then show ?thesis
    by (cases "round_binary64 (of_int a / of_int b)") auto
qed

lemma int_to_float_finite: "int_to_float n = Inr d \<Longrightarrow> \<exists>y. d = Finite y"
  unfolding int_to_float_def
  by (cases "round_binary64 (of_int n)") auto

lemma int_to_float_nonneg:
  "0 \<le> n \<Longrightarrow> int_to_float n = Inr d \<Longrightarrow> \<exists>y. d = Finite y \<and> 0 \<le> y"
  using round_binary64_nonneg [of "of_int n"] unfolding int_to_float_def
  by (cases "round_binary64 (of_int n)") auto

lemma float_mul_int_nonneg:
  assumes "0 \<le> p" and "0 \<le> g" and "float_mul_int (Finite p) g = Inr f"
  shows "f = PosInf \<or> (\<exists>y. f = Finite y \<and> 0 \<le> y)"
proof -
  from assms(3) obtain gf where gf: "int_to_float g = Inr gf" and f: "f = double_mul (Finite p) gf"
    by (auto simp: float_mul_int_def split: sum.splits)
  from int_to_float_nonneg [OF assms(2) gf] obtain y where y: "gf = Finite y" "0 \<le> y"
    by blast
  with assms(1) have "0 \<le> p * y" by simp
  from round_binary64_nonneg [OF this] show ?thesis
    by (simp add: f y double_mul_def)
qed

subsection \<open>The values of a transfer of 1 ether at 20 gwei using 21000 gas\<close>

lemma truediv_20_gwei:
  "int_truediv 20000000000 wei_to_eth = Inr (Finite (3022314549036573 / 151115727451828646838272))"
proof -
  have "round_binary64 (of_int 20000000000 / of_int wei_to_eth) =
        Finite (of_int 6044629098073146 * pow2 (- 78))"
    by (rule round_binary64_finite [where e = "- 26"])
       (simp_all add: wei_to_eth_def pow2_def)
  then show ?thesis
    by (simp add: int_truediv_def wei_to_eth_def pow2_def)
qed

lemma truediv_1_eth:
  "int_truediv 1000000000000000000 wei_to_eth = Inr (Finite 1)"
proof -
  have "round_binary64 (of_int 1000000000000000000 / of_int wei_to_eth) =
        Finite (of_int 4503599627370496 * pow2 (- 52))"
    by (rule round_binary64_finite [where e = 0])
       (simp_all add: wei_to_eth_def pow2_def)
  then show ?thesis
    by (simp add: int_truediv_def wei_to_eth_def pow2_def)
qed

lemma int_to_float_21000: "int_to_float 21000 = Inr (Finite 21000)"
proof -
  have "round_binary64 (of_int 21000) = Finite (of_int 5772436045824000 * pow2 (- 38))"
    by (rule round_binary64_finite [where e = 14]) (simp_all add: pow2_def)
  then show ?thesis
    by (simp add: int_to_float_def pow2_def)
qed

lemma fee_20_gwei_21000:
  "float_mul_int (Finite (3022314549036573 / 151115727451828646838272)) 21000 =
   Inr (Finite (1936908127739503 / 4611686018427387904))"
proof -
  have "round_binary64 (3022314549036573 / 151115727451828646838272 * 21000) =
        Finite (of_int 7747632510958012 * pow2 (- 64))"
    by (rule round_binary64_finite [where e = "- 12"]) (simp_all add: pow2_def)
  then show ?thesis
    by (simp add: float_mul_int_def int_to_float_21000 double_mul_def pow2_def)
qed

section \<open>Properties of the log decoding\<close>

lemma foldl_bytes_acc:
  "foldl (\<lambda>acc b. acc * 256 + uint b) a bs =
   a * 256 ^ length bs + foldl (\<lambda>acc b. acc * 256 + uint b) 0 (bs :: bytes)"
proof (induction bs arbitrary: a)
  case Nil
  then show ?case by simp
next
  case (Cons b bs)
  have "foldl (\<lambda>acc b. acc * 256 + uint b) a (b # bs) =
        foldl (\<lambda>acc b. acc * 256 + uint b) (a * 256 + uint b) bs"
    by simp
  also have "\<dots> = (a * 256 + uint b) * 256 ^ length bs
      + foldl (\<lambda>acc b. acc * 256 + uint b) 0 bs"
    by (rule Cons.IH)
  also have "foldl (\<lambda>acc b. acc * 256 + uint b) 0 (b # bs) =
      uint b * 256 ^ length bs + foldl (\<lambda>acc b. acc * 256 + uint b) 0 bs"
    using Cons.IH [of "uint b"] by simp
  ultimately show ?case
    by (simp add: algebra_simps)
qed

lemma from_bytes_big_Nil: "from_bytes_big [] = 0"
  by (simp add: from_bytes_big_def)

lemma from_bytes_big_Cons:
  "from_bytes_big (b # bs) = uint b * 256 ^ length bs + from_bytes_big bs"
  using foldl_bytes_acc [of "uint b" bs] by (simp add: from_bytes_big_def)

lemma from_bytes_big_nonneg: "0 \<le> from_bytes_big bs"
  by (induction bs) (simp_all add: from_bytes_big_Nil from_bytes_big_Cons)

lemma round_half_even_error: "\<bar>of_int (round_half_even x) - x\<bar> \<le> 1 / 2"
proof -
  define f where "f = \<lfloor>x\<rfloor>"
  have b: "of_int f \<le> x" "x < of_int f + 1"
    using floor_correct [of x] by (simp_all add: f_def)
  consider "x - of_int f < 1 / 2" | "1 / 2 < x - of_int f" | "x - of_int f = 1 / 2"
    by linarith
  then show ?thesis
  proof cases
    case 1
    then have "round_half_even x = f"
      by (simp add: round_half_even_def Let_def f_def)
    with 1 b show ?thesis by simp
  next
    case 2
    then have "round_half_even x = f + 1"
      by (simp add: round_half_even_def Let_def f_def)
    with 2 b show ?thesis by simp
  next
    case 3
    then have "round_half_even x = f \<or> round_half_even x = f + 1"
      by (simp add: round_half_even_def Let_def f_def)
    with 3 show ?thesis by auto
  qed
qed

lemma round_half_even_of_int: "round_half_even (of_int n) = n"
  by (simp add: round_half_even_def Let_def)

lemma length_hex: "length (hex bs) = 2 * length bs"
  by (induction bs) (simp_all add: hex_def hex_byte_def)

lemma hex_append: "hex (xs @ ys) = hex xs @ hex ys"
  by (simp add: hex_def)

lemma last40_hex_32:
  assumes "length bs = 32"
  shows "last40 (hex bs) = hex (drop 12 bs)"
proof -
  have "hex bs = hex (take 12 bs) @ hex (drop 12 bs)"
    by (simp add: hex_append [symmetric])
  moreover have "length (hex (take 12 bs)) = 24"
    using assms by (simp add: length_hex)
  moreover have "length (hex bs) = 64"
    using assms by (simp add: length_hex)
  ultimately show ?thesis
    by (simp add: last40_def)
qed

lemma value_usdt_decimal_Inr:
  assumes "value_usdt_decimal data = Inr v"
  shows "v = of_int (round_half_even (of_int (from_bytes_big data) / 10 ^ 4)) / 100"
proof -
  have eq: "(of_int (from_bytes_big data) :: rat) / 10 ^ 6 * 100 = of_int (from_bytes_big data) / 10 ^ 4"
    by simp
  show ?thesis
  proof (cases "from_bytes_big data = 0")
    case True
    with assms show ?thesis
      by (simp add: value_usdt_decimal_def from_wei_mwei_def round_2_def Let_def
          round_half_even_def split: if_splits)
  next
    case False
    with assms show ?thesis
      by (simp add: value_usdt_decimal_def from_wei_mwei_def round_2_def Let_def
          split: if_splits)
  qed
qed


lemma value_usdt_decimal_total:
  assumes "from_bytes_big data < 10 ^ 32 - 5000"
  shows "\<exists>v. value_usdt_decimal data = Inr v"
proof -
  define raw where "raw = from_bytes_big data"
  define k where "k = round_half_even (of_int raw / 10 ^ 4)"
  have raw: "0 \<le> raw" "raw < 10 ^ 32 - 5000"
    using assms by (simp_all add: raw_def from_bytes_big_nonneg)
  have "\<bar>of_int k - of_int raw / 10 ^ 4\<bar> \<le> (1 / 2 :: rat)"
    unfolding k_def by (rule round_half_even_error)
  then have up: "(of_int k :: rat) \<le> of_int raw / 10 ^ 4 + 1 / 2"
    and lo: "of_int raw / 10 ^ 4 - 1 / 2 \<le> (of_int k :: rat)"
    by linarith+
  from raw(2) have "raw \<le> 10 ^ 32 - 5001" by simp
  then have "(of_int raw :: rat) \<le> of_int (10 ^ 32 - 5001)"
    by (simp only: of_int_le_iff)
  then have "(of_int raw :: rat) / 10 ^ 4 + 1 / 2 < 10 ^ 28" by simp
  with up have "(of_int k :: rat) < of_int (10 ^ 28)" by simp
  then have k_up: "k < 10 ^ 28" by (simp only: of_int_less_iff)
  from raw(1) have "(0 :: rat) \<le> of_int raw / 10 ^ 4" by simp
  with lo have "(of_int (- 1) :: rat) < of_int k" by simp
  then have k_lo: "0 \<le> k" by simp
  from k_lo k_up have abs: "\<not> 10 ^ 28 \<le> \<bar>round_half_even (of_int raw / 10 ^ 4)\<bar>"
    by (simp add: k_def)
  have big: "\<not> 2 ^ 256 - 1 < raw"
    using raw(2) by simp
  have eq: "(of_int raw :: rat) / 10 ^ 6 * 100 = of_int raw / 10 ^ 4"
    by simp
  show ?thesis
  proof (cases "raw = 0")
    case True
    then have "value_usdt_decimal data = Inr 0"
      by (simp add: value_usdt_decimal_def from_wei_mwei_def round_2_def Let_def
          round_half_even_def raw_def [symmetric])
    then show ?thesis ..
  next
    case False
    with raw(1) have "\<not> raw < 1" by simp
    with False big abs have "value_usdt_decimal data = Inr (of_int k / 100)"
      by (simp add: value_usdt_decimal_def from_wei_mwei_def round_2_def Let_def
          raw_def [symmetric] k_def eq)
    then show ?thesis ..
  qed
qed

lemma value_usdt_decimal_error:
  assumes "value_usdt_decimal data = Inr v"
  shows "\<bar>v * 10 ^ 6 - of_int (from_bytes_big data)\<bar> \<le> 5000"
proof -
  define raw where "raw = from_bytes_big data"
  define k where "k = round_half_even (of_int raw / 10 ^ 4)"
  have v: "v = of_int k / 100"
    using value_usdt_decimal_Inr [OF assms] by (simp add: k_def raw_def)
  define a :: rat where "a = of_int k - of_int raw / 10 ^ 4"
  have "\<bar>a\<bar> \<le> 1 / 2"
    unfolding a_def k_def by (rule round_half_even_error)
  then have "\<bar>a\<bar> * \<bar>10 ^ 4\<bar> \<le> 1 / 2 * \<bar>10 ^ 4 :: rat\<bar>"
    by (rule mult_right_mono) simp
  then have "\<bar>a * 10 ^ 4\<bar> \<le> 5000"
    by (simp only: abs_mult) simp
  moreover have "a * 10 ^ 4 = v * 10 ^ 6 - of_int raw"
    by (simp add: a_def v algebra_simps)
  ultimately show ?thesis
    by (simp add: raw_def)
qed

lemma value_usdt_decimal_exact:
  assumes "value_usdt_decimal data = Inr v"
  shows "v * 10 ^ 6 = of_int (from_bytes_big data) \<longleftrightarrow> 10 ^ 4 dvd from_bytes_big data"
proof -
  define raw where "raw = from_bytes_big data"
  define k where "k = round_half_even (of_int raw / 10 ^ 4)"
  have v: "v = of_int k / 100"
    using value_usdt_decimal_Inr [OF assms] by (simp add: k_def raw_def)
  have v6: "v * 10 ^ 6 = of_int (k * 10 ^ 4)"
    by (simp add: v)
  show ?thesis
  proof
    assume "v * 10 ^ 6 = of_int (from_bytes_big data)"
    then have "(of_int (k * 10 ^ 4) :: rat) = of_int raw"
      by (simp only: v6 raw_def)
    then have "k * 10 ^ 4 = raw" by (simp only: of_int_eq_iff)
    then show "10 ^ 4 dvd from_bytes_big data"
      by (simp add: raw_def [symmetric] dvd_def mult.commute) (metis mult.commute)
  next
    assume "10 ^ 4 dvd from_bytes_big data"
    then obtain m where m: "raw = 10 ^ 4 * m"
      by (auto simp: raw_def dvd_def)
    then have "(of_int raw :: rat) / 10 ^ 4 = of_int m" by simp
    then have "k = m" by (simp add: k_def round_half_even_of_int)
    then have "k * 10 ^ 4 = raw" by (simp add: m)
    then show "v * 10 ^ 6 = of_int (from_bytes_big data)"
      by (simp only: v6 raw_def)
  qed
qed

lemma floor_rat_numeral_div:
  "\<lfloor>(numeral a :: rat) / numeral b\<rfloor> = numeral a div numeral b"
  "\<lfloor>(1 :: rat) / numeral b\<rfloor> = 1 div numeral b"
  using floor_divide_of_int_eq [of "numeral a" "numeral b", where ?'a = rat]
    floor_divide_of_int_eq [of 1 "numeral b", where ?'a = rat]
  by simp_all

lemma topic_address_32:
  assumes "topic_address tps i = Inr a" and "length (tps ! i) = 32"
  shows "a = ''0x'' @ hex (drop 12 (tps ! i))"
  using assms by (auto simp: topic_address_def last40_hex_32 split: if_splits)

section \<open>Properties of the extraction\<close>

lemma block_loop_Inl:
  "block_loop w3 bn blk txs acc = Inl err \<Longrightarrow>
   \<exists>tx \<in> set txs. \<exists>c. transaction_record w3 bn blk tx = Inl c
      \<and> err = ErrorFetchingBlockTransactions bn c"
  by (induction txs arbitrary: acc) (auto split: sum.splits)

lemma block_loop_Inr:
  "block_loop w3 bn blk txs acc = Inr acc' \<Longrightarrow>
   \<forall>tx \<in> set txs. \<exists>r. transaction_record w3 bn blk tx = Inr r"
  by (induction txs arbitrary: acc) (auto split: sum.splits)

lemma transaction_record_receipt_fails:
  "get_transaction_receipt w3 (tx_hash tx) = Inl e \<Longrightarrow>
   transaction_record w3 bn blk tx = Inl (ClientFailure e)"
  by (simp add: transaction_record_def)

lemma range_loop_Inl:
  "range_loop w3 bns acc = Inl err \<Longrightarrow>
   \<exists>bn \<in> set bns.
     (\<exists>e. get_block w3 bn True = Inl e \<and> err = ErrorFetchingBlock bn (ClientFailure e))
     \<or> (\<exists>blk tx c. get_block w3 bn True = Inr blk \<and> tx \<in> set (block_transactions blk)
           \<and> transaction_record w3 bn blk tx = Inl c
           \<and> err = ErrorFetchingBlockTransactions bn c)"
proof (induction bns arbitrary: acc)
  case Nil
  then show ?case by simp
next
  case (Cons bn bns)
  show ?case
  proof (cases "get_block w3 bn True")
    case (Inl e)
    with Cons.prems show ?thesis by auto
  next
    case (Inr blk)
    show ?thesis
    proof (cases "block_loop w3 bn blk (block_transactions blk) acc")
      case (Inl err')
      with Inr Cons.prems have "err' = err" by simp
      with Inl Inr block_loop_Inl [of w3 bn blk "block_transactions blk" acc err]
      show ?thesis by auto
    next
      case (Inr acc')
      with \<open>get_block w3 bn True = Inr blk\<close> Cons.prems
      have "range_loop w3 bns acc' = Inl err" by simp
      from Cons.IH [OF this] show ?thesis by auto
    qed
  qed
qed

lemma range_loop_Inr:
  "range_loop w3 bns acc = Inr acc' \<Longrightarrow>
   \<forall>bn \<in> set bns. \<exists>blk. get_block w3 bn True = Inr blk
      \<and> (\<forall>tx \<in> set (block_transactions blk). \<exists>r. transaction_record w3 bn blk tx = Inr r)"
proof (induction bns arbitrary: acc)
  case Nil
  then show ?case by simp
next
  case (Cons bn bns)
  from Cons.prems obtain blk acc1 where blk: "get_block w3 bn True = Inr blk"
    and loop: "block_loop w3 bn blk (block_transactions blk) acc = Inr acc1"
    and rest: "range_loop w3 bns acc1 = Inr acc'"
    by (auto split: sum.splits)
  from block_loop_Inr [OF loop] blk Cons.IH [OF rest] show ?case by auto
qed

lemma hex_0a: "hex [0x0a] = ''0a''"
  by (simp add: hex_def hex_byte_def hexdigit_def)

lemma transaction_record_is_connected:
  "transaction_record (w3\<lparr>is_connected := c\<rparr>) bn blk tx = transaction_record w3 bn blk tx"
  by (simp add: transaction_record_def)

lemma block_loop_is_connected:
  "block_loop (w3\<lparr>is_connected := c\<rparr>) bn blk txs acc = block_loop w3 bn blk txs acc"
  by (induction txs arbitrary: acc)
     (simp_all add: transaction_record_is_connected split: sum.split)

lemma range_loop_is_connected:
  "range_loop (w3\<lparr>is_connected := c\<rparr>) bns acc = range_loop w3 bns acc"
  by (induction bns arbitrary: acc) (simp_all add: block_loop_is_connected split: sum.split)

lemma log_record_is_connected:
  "log_record (w3\<lparr>is_connected := c\<rparr>) lg = log_record w3 lg"
  by (simp add: log_record_def split: sum.split)

lemma logs_loop_is_connected:
  "logs_loop (w3\<lparr>is_connected := c\<rparr>) lgs acc = logs_loop w3 lgs acc"
  by (induction lgs arbitrary: acc) (simp_all add: log_record_is_connected split: sum.split)

lemma extraction_is_connected:
  "get_transactions (w3\<lparr>is_connected := c\<rparr>) a b = get_transactions w3 a b"
  "get_logs_tether (w3\<lparr>is_connected := c\<rparr>) a b = get_logs_tether w3 a b"
  by (simp_all add: get_transactions_def get_logs_tether_def range_loop_is_connected
        logs_loop_is_connected split: sum.split)

lemma transaction_record_fee:
  assumes "transaction_record w3 bn blk tx = Inr r"
  shows "(\<exists>p. t_gas_price r = Finite p)
         \<and> float_mul_int (t_gas_price r) (t_gas_used r) = Inr (t_gas_fee r)"
  using assms
  by (auto simp: transaction_record_def Let_def split: sum.splits dest: int_truediv_finite)

lemma block_loop_fee:
  assumes "block_loop w3 bn blk txs acc = Inr acc'"
    and "\<forall>r \<in> set acc. (\<exists>p. t_gas_price r = Finite p)
           \<and> float_mul_int (t_gas_price r) (t_gas_used r) = Inr (t_gas_fee r)"
  shows "\<forall>r \<in> set acc'. (\<exists>p. t_gas_price r = Finite p)
           \<and> float_mul_int (t_gas_price r) (t_gas_used r) = Inr (t_gas_fee r)"
  using assms
proof (induction txs arbitrary: acc)
  case Nil
  then show ?case by simp
next
  case (Cons tx txs)
  from Cons.prems(1) obtain r where r: "transaction_record w3 bn blk tx = Inr r"
    and rest: "block_loop w3 bn blk txs (acc @ [r]) = Inr acc'"
    by (auto split: sum.splits)
  from transaction_record_fee [OF r] Cons.prems(2)
  have "\<forall>r \<in> set (acc @ [r]). (\<exists>p. t_gas_price r = Finite p)
           \<and> float_mul_int (t_gas_price r) (t_gas_used r) = Inr (t_gas_fee r)"
    by auto
  from Cons.IH [OF rest this] show ?case .
qed

lemma range_loop_fee:
  assumes "range_loop w3 bns acc = Inr acc'"
    and "\<forall>r \<in> set acc. (\<exists>p. t_gas_price r = Finite p)
           \<and> float_mul_int (t_gas_price r) (t_gas_used r) = Inr (t_gas_fee r)"
  shows "\<forall>r \<in> set acc'. (\<exists>p. t_gas_price r = Finite p)
           \<and> float_mul_int (t_gas_price r) (t_gas_used r) = Inr (t_gas_fee r)"
  using assms
proof (induction bns arbitrary: acc)
  case Nil
  then show ?case by simp
next
  case (Cons bn bns)
  from Cons.prems(1) obtain blk acc1 where
    loop: "block_loop w3 bn blk (block_transactions blk) acc = Inr acc1"
    and rest: "range_loop w3 bns acc1 = Inr acc'"
    by (auto split: sum.splits)
  from Cons.IH [OF rest block_loop_fee [OF loop Cons.prems(2)]] show ?case .
qed

section \<open>Properties of the join\<close>

lemma left_join_rows_nonempty: "left_join_rows eng logs t \<noteq> []"
  by (simp add: left_join_rows_def split: list.split)

lemma left_join_rows_unmatched:
  "filter (join_on t) logs = [] \<Longrightarrow> left_join_rows eng logs t = [select_row eng t None]"
  by (simp add: left_join_rows_def)

lemma left_join_rows_matched:
  "filter (join_on t) logs \<noteq> [] \<Longrightarrow>
   left_join_rows eng logs t = map (\<lambda>m. select_row eng t (Some m)) (filter (join_on t) logs)"
  by (simp add: left_join_rows_def split: list.split)

lemma df_transactions_complete_append:
  "df_transactions_complete eng (ts1 @ ts2) logs =
   df_transactions_complete eng ts1 logs @ df_transactions_complete eng ts2 logs"
  by (induction ts1) simp_all

lemma select_row_token_fields:
  "log_from_address (select_row eng t lo) = map_option l_from_address lo"
  "log_to_address (select_row eng t lo) = map_option l_to_address lo"
  "log_value_usdt (select_row eng t lo) = map_option l_value_usdt lo"
  by (simp_all add: select_row_def)

lemma left_join_rows_conull:
  "r \<in> set (left_join_rows eng logs t) \<Longrightarrow>
   (log_from_address r = None \<and> log_to_address r = None \<and> log_value_usdt r = None)
   \<or> (log_from_address r \<noteq> None \<and> log_to_address r \<noteq> None \<and> log_value_usdt r \<noteq> None)"
  by (auto simp: left_join_rows_def select_row_token_fields split: list.splits)

lemma df_transactions_complete_conull:
  "r \<in> set (df_transactions_complete eng ts logs) \<Longrightarrow>
   (log_from_address r = None \<and> log_to_address r = None \<and> log_value_usdt r = None)
   \<or> (log_from_address r \<noteq> None \<and> log_to_address r \<noteq> None \<and> log_value_usdt r \<noteq> None)"
proof (induction ts)
  case Nil
  then show ?case by simp
next
  case (Cons t ts)
  from Cons.prems have "r \<in> set (left_join_rows eng logs t)
      \<or> r \<in> set (df_transactions_complete eng ts logs)"
    by simp
  then show ?case
    using left_join_rows_conull Cons.IH by blast
qed

lemma clean_rows_all_set:
  "r \<in> set (df_logs_tether_clean (df_transactions_complete eng ts logs)) \<Longrightarrow>
   log_from_address r \<noteq> None \<and> log_to_address r \<noteq> None \<and> log_value_usdt r \<noteq> None"
  using df_transactions_complete_conull [of r eng ts logs]
  by (auto simp: df_logs_tether_clean_def)

lemma burn_predicate:
  "a \<noteq> None \<Longrightarrow> b \<noteq> None \<Longrightarrow>
   (sql_and (sql_eq a (Some z)) (sql_neq b (Some z)) = Some True) = (a = Some z \<and> b \<noteq> Some z)"
  by (auto simp: sql_and_def sql_eq_def sql_neq_def)

lemma clean_is_inner_join:
  "df_logs_tether_clean (df_transactions_complete eng txs logs) =
   concat (map (\<lambda>t. map (\<lambda>l. select_row eng t (Some l)) (filter (join_on t) logs)) txs)"
proof (induction txs)
  case Nil
  then show ?case by (simp add: df_logs_tether_clean_def)
next
  case (Cons t ts)
  have "filter (\<lambda>r. log_value_usdt r \<noteq> None) (left_join_rows eng logs t) =
        map (\<lambda>l. select_row eng t (Some l)) (filter (join_on t) logs)"
    by (cases "filter (join_on t) logs")
       (simp_all add: left_join_rows_def select_row_token_fields filter_map o_def)
  with Cons show ?case by (simp add: df_logs_tether_clean_def)
qed

lemma join_row_value:
  "r \<in> set (df_transactions_complete eng txs logs) \<Longrightarrow>
   \<exists>t \<in> set txs. tx_value_eth r = ROUND eng (t_value t) 2
      \<and> transaction_hash r = t_transaction_hash t"
proof (induction txs)
  case Nil
  then show ?case by simp
next
  case (Cons t ts)
  from Cons.prems have "r \<in> set (left_join_rows eng logs t)
      \<or> r \<in> set (df_transactions_complete eng ts logs)"
    by simp
  then show ?case
  proof
    assume "r \<in> set (left_join_rows eng logs t)"
    then have "tx_value_eth r = ROUND eng (t_value t) 2
      \<and> transaction_hash r = t_transaction_hash t"
      by (auto simp: left_join_rows_def select_row_def split: list.splits)
    then show ?thesis by simp
  next
    assume "r \<in> set (df_transactions_complete eng ts logs)"
    from Cons.IH [OF this] show ?thesis by auto
  qed
qed

section \<open>Properties of the block times\<close>

lemma length_lag: "length (lag xs) = length xs"
  by (simp add: lag_def)

lemma lag_nth:
  "i < length xs \<Longrightarrow> lag xs ! i = (if i = 0 then None else xs ! (i - 1))"
  by (cases i) (auto simp: lag_def nth_butlast)

lemma sql_max_Max: "xs \<noteq> [] \<Longrightarrow> sql_max xs = Some (Max (set xs))"
proof (cases xs)
  case Nil
  assume "xs \<noteq> []"
  with Nil show ?thesis by simp
next
  case (Cons a list)
  then show ?thesis
    unfolding sql_max_def using Max.set_eq_fold [of a list] by simp
qed

lemma group_row_key: "(g_block_number (group_row rows k), g_timestamp (group_row rows k)) = k"
  by (simp add: group_row_def)

lemma group_row_fields:
  "g_block_number (group_row rows k) = fst k" "g_timestamp (group_row rows k) = snd k"
  by (simp_all add: group_row_def)

lemma set_grouped_data:
  "set (grouped_data rows) = group_row rows ` (\<lambda>r. (block_number r, timestamp r)) ` set rows"
  by (simp add: grouped_data_def)

lemma distinct_grouped_keys:
  "distinct (map (\<lambda>g. (g_block_number g, g_timestamp g)) (sort_key g_block_number (grouped_data rows)))"
proof -
  have inj: "inj_on (\<lambda>g. (g_block_number g, g_timestamp g)) (set (grouped_data rows))"
    unfolding set_grouped_data
    by (rule inj_onI) (auto simp: group_row_fields)
  have "inj_on (group_row rows) (set (remdups (map (\<lambda>r. (block_number r, timestamp r)) rows)))"
    by (rule inj_onI) (metis group_row_key)
  then have "distinct (grouped_data rows)"
    by (simp add: grouped_data_def distinct_map)
  with inj show ?thesis
    by (simp add: distinct_map)
qed

lemma grouped_unix:
  assumes "g \<in> set (grouped_data rows)"
  shows "g_unix_timestamp g =
     Some (Max (unix_timestamp `
       {r \<in> set rows. block_number r = g_block_number g \<and> timestamp r = g_timestamp g}))"
proof -
  from assms obtain r0 where r0: "r0 \<in> set rows"
    and g: "g = group_row rows (block_number r0, timestamp r0)"
    unfolding set_grouped_data by blast
  let ?k = "(block_number r0, timestamp r0)"
  let ?members = "filter (\<lambda>r. (block_number r, timestamp r) = ?k) rows"
  from r0 have "r0 \<in> set ?members" by simp
  then have ne: "map unix_timestamp ?members \<noteq> []"
    by (auto simp: filter_empty_conv)
  have "g_unix_timestamp g = sql_max (map unix_timestamp ?members)"
    by (simp add: g group_row_def)
  also have "\<dots> = Some (Max (set (map unix_timestamp ?members)))"
    by (rule sql_max_Max [OF ne])
  also have "set (map unix_timestamp ?members) =
      unix_timestamp ` {r \<in> set rows. block_number r = g_block_number g \<and> timestamp r = g_timestamp g}"
    by (auto simp: g group_row_def)
  finally show ?thesis .
qed

lemma time_between_blocks_length:
  "length (time_between_blocks rows) = length (grouped_data rows)"
  by (simp add: time_between_blocks_def timediff_data_def Let_def length_lag)

lemma time_between_blocks_nth:
  assumes "i < length (time_between_blocks rows)"
  defines "ordered \<equiv> sort_key g_block_number (grouped_data rows)"
  shows "time_between_blocks rows ! i =
     \<lparr> b_block_number = g_block_number (ordered ! i),
       b_timestamp = g_timestamp (ordered ! i),
       b_unix_timestamp = g_unix_timestamp (ordered ! i),
       unix_prev_timestamp = (if i = 0 then None else g_unix_timestamp (ordered ! (i - 1))),
       time_diff_in_seconds =
         coalesce (sql_minus (g_unix_timestamp (ordered ! i))
                     (if i = 0 then None else g_unix_timestamp (ordered ! (i - 1)))) 0 \<rparr>"
proof -
  from assms(1) have i: "i < length ordered"
    by (simp add: time_between_blocks_length ordered_def)
  then have "lag (map g_unix_timestamp ordered) ! i =
      (if i = 0 then None else g_unix_timestamp (ordered ! (i - 1)))"
    by (simp add: lag_nth)
  with i show ?thesis
    by (simp add: time_between_blocks_def timediff_data_def Let_def length_lag ordered_def [symmetric])
qed


lemma time_between_blocks_keys:
  "map (\<lambda>b. (b_block_number b, b_timestamp b)) (time_between_blocks rows) =
   map (\<lambda>g. (g_block_number g, g_timestamp g)) (sort_key g_block_number (grouped_data rows))"
  by (rule nth_equalityI)
     (simp_all add: time_between_blocks_length time_between_blocks_nth)

lemma time_between_blocks_row:
  assumes "b \<in> set (time_between_blocks rows)"
  shows "\<exists>g \<in> set (grouped_data rows).
           b_block_number b = g_block_number g \<and> b_timestamp b = g_timestamp g
           \<and> b_unix_timestamp b = g_unix_timestamp g"
proof -
  from assms obtain i where i: "i < length (time_between_blocks rows)"
    and b: "b = time_between_blocks rows ! i"
    by (auto simp: in_set_conv_nth)
  from i have "sort_key g_block_number (grouped_data rows) ! i
      \<in> set (sort_key g_block_number (grouped_data rows))"
    by (intro nth_mem) (simp add: time_between_blocks_length)
  then have "sort_key g_block_number (grouped_data rows) ! i \<in> set (grouped_data rows)"
    by simp
  moreover have "b_block_number b = g_block_number (sort_key g_block_number (grouped_data rows) ! i)"
    "b_timestamp b = g_timestamp (sort_key g_block_number (grouped_data rows) ! i)"
    "b_unix_timestamp b = g_unix_timestamp (sort_key g_block_number (grouped_data rows) ! i)"
    using i by (simp_all add: b time_between_blocks_nth)
  ultimately show ?thesis by blast
qed

lemma time_between_blocks_unix:
  assumes "b \<in> set (time_between_blocks rows)"
  shows "b_unix_timestamp b =
     Some (Max (unix_timestamp `
       {r \<in> set rows. block_number r = b_block_number b \<and> timestamp r = b_timestamp b}))"
proof -
  from time_between_blocks_row [OF assms] obtain g where g: "g \<in> set (grouped_data rows)"
    and eq: "b_block_number b = g_block_number g" "b_timestamp b = g_timestamp g"
      "b_unix_timestamp b = g_unix_timestamp g"
    by blast
  show ?thesis
    using grouped_unix [OF g] by (simp add: eq)
qed

lemma time_between_blocks_sorted:
  "sorted (map b_block_number (time_between_blocks rows))"
proof -
  have "map b_block_number (time_between_blocks rows) =
        map g_block_number (sort_key g_block_number (grouped_data rows))"
    by (rule nth_equalityI)
       (simp_all add: time_between_blocks_length time_between_blocks_nth)
  then show ?thesis by simp
qed

lemma time_between_blocks_diff:
  assumes "i < length (time_between_blocks rows)"
  shows "unix_prev_timestamp (time_between_blocks rows ! i) =
           (if i = 0 then None else b_unix_timestamp (time_between_blocks rows ! (i - 1)))
         \<and> (i = 0 \<longrightarrow> time_diff_in_seconds (time_between_blocks rows ! i) = 0)
         \<and> (0 < i \<longrightarrow>
              (\<exists>u p. b_unix_timestamp (time_between_blocks rows ! i) = Some u
                     \<and> b_unix_timestamp (time_between_blocks rows ! (i - 1)) = Some p
                     \<and> time_diff_in_seconds (time_between_blocks rows ! i) = u - p))"
proof (cases i)
  case 0
  with assms show ?thesis
    by (simp add: time_between_blocks_nth sql_minus_def coalesce_def split: option.split)
next
  case (Suc j)
  with assms have j: "j < length (time_between_blocks rows)" by simp
  from assms obtain u where u: "b_unix_timestamp (time_between_blocks rows ! i) = Some u"
    using time_between_blocks_unix [OF nth_mem [OF assms]] by blast
  from j obtain p where p: "b_unix_timestamp (time_between_blocks rows ! j) = Some p"
    using time_between_blocks_unix [OF nth_mem [OF j]] by blast
  from u p assms j show ?thesis
    by (simp add: Suc time_between_blocks_nth sql_minus_def coalesce_def)
qed

section \<open>Properties of the engine's \<open>ROUND\<close>\<close>

text \<open>The decimal text of a positive double lies between 0 and eleven tenths of the
  double, so a double of at most \<open>1 / 256\<close> is rounded to 0 at two places.\<close>

lemma pow10_powi: "pow10 e = 10 powi e"
  by (simp add: pow10_def power_int_def inverse_eq_divide power_one_over)

lemma pow10_pos: "0 < pow10 e"
  by (simp add: pow10_powi)

lemma pow10_add: "pow10 (a + b) = pow10 a * pow10 b"
  by (simp add: pow10_powi power_int_add)

lemma pow10_le_mono: "a \<le> b \<Longrightarrow> pow10 a \<le> pow10 b"
  by (simp add: pow10_powi power_int_increasing)

lemma pow10_of_nat: "pow10 (int k) = 10 ^ k"
  by (simp add: pow10_def)

lemma declen_bounds:
  "0 < n \<Longrightarrow> \<exists>k. declen n = int (Suc k) \<and> 10 ^ k \<le> n \<and> n < 10 ^ Suc k"
proof (induction n rule: declen.induct)
  case (1 n)
  have split: "n = 10 * (n div 10) + n mod 10" by simp
  have md: "0 \<le> n mod 10" "n mod 10 < 10" by simp_all
  show ?case
  proof (cases "n div 10 \<le> 0")
    case True
    with "1.prems" split md have "1 \<le> n" "n < 10" by linarith+
    moreover from "1.prems" True have "declen n = 1"
      by (subst declen.simps) (simp add: declen.simps)
    ultimately have "declen n = int (Suc 0) \<and> 10 ^ 0 \<le> n \<and> n < 10 ^ Suc 0"
      by simp
    then show ?thesis by blast
  next
    case False
    then have pos: "0 < n div 10" by simp
    with "1.prems" "1.IH" obtain k where k: "declen (n div 10) = int (Suc k)"
      "10 ^ k \<le> n div 10" "n div 10 < 10 ^ Suc k"
      by fastforce
    from "1.prems" have "declen n = 1 + declen (n div 10)"
      by (subst declen.simps) simp
    with k have "declen n = int (Suc (Suc k))" by simp
    moreover from k(2) split md have "10 ^ Suc k \<le> n" by (simp; linarith)
    moreover from k(3) split md have "n < 10 ^ Suc (Suc k)" by (simp; linarith)
    ultimately show ?thesis by blast
  qed
qed

lemma floor_log10_lower:
  assumes "0 < x"
  shows "pow10 (floor_log10 x) \<le> x"
proof -
  obtain a b where q: "quotient_of x = (a, b)" by (cases "quotient_of x")
  then have x: "x = of_int a / of_int b" and b: "0 < b"
    by (simp_all add: quotient_of_div quotient_of_denom_pos)
  with assms have a: "0 < a"
    by (simp add: zero_less_divide_iff)
  from declen_bounds [OF a] obtain ka where ka: "declen a = int (Suc ka)"
    "10 ^ ka \<le> a" "a < 10 ^ Suc ka" by blast
  from declen_bounds [OF b] obtain kb where kb: "declen b = int (Suc kb)"
    "10 ^ kb \<le> b" "b < 10 ^ Suc kb" by blast
  define d where "d = int ka - int kb"
  have d: "declen a - declen b = d"
    by (simp add: ka kb d_def)
  have ra: "(10::rat) ^ ka \<le> of_int a"
    using ka(2) by (metis of_int_le_iff of_int_numeral of_int_power)
  have rb: "(of_int b :: rat) < 10 ^ Suc kb"
    using kb(3) by (metis of_int_less_iff of_int_numeral of_int_power)
  have bpos: "(0::rat) < of_int b" using b by simp
  have lower: "pow10 (d - 1) \<le> x"
  proof -
    have "pow10 (d - 1) * of_int b \<le> pow10 (d - 1) * 10 ^ Suc kb"
      using rb pow10_pos [of "d - 1"] by (simp add: mult_left_mono del: power_Suc)
    also have "\<dots> = 10 ^ ka"
      by (simp add: d_def pow10_of_nat [symmetric] pow10_add [symmetric] del: of_nat_Suc power_Suc)
         (simp add: algebra_simps)
    also have "\<dots> \<le> of_int a" by (rule ra)
    finally show ?thesis
      using bpos by (simp add: x pos_le_divide_eq)
  qed
  show ?thesis
  proof (cases "pow10 d \<le> x")
    case True
    then have "floor_log10 x = d"
      by (simp add: floor_log10_def q d)
    with True show ?thesis by simp
  next
    case False
    then have "floor_log10 x = d - 1"
      by (simp add: floor_log10_def q d)
    with lower show ?thesis by simp
  qed
qed

lemma decimals_near_bounds:
  assumes "0 < x" and "2 \<le> n" and "d \<in> set (decimals_near x n)"
  shows "0 \<le> decimal_value d \<and> decimal_value d \<le> x + x / 10"
proof -
  define u where "u = pow10 (floor_log10 x - int n + 1)"
  define c where "c = \<lfloor>x / u\<rfloor>"
  have u: "0 < u" by (simp add: u_def pow10_pos)
  have "floor_log10 x - int n + 1 \<le> floor_log10 x + (- 1)"
    using assms(2) by simp
  then have "u \<le> pow10 (floor_log10 x + (- 1))"
    unfolding u_def by (rule pow10_le_mono)
  also have "\<dots> = pow10 (floor_log10 x) / 10"
  proof -
    have "pow10 (- 1) = 1 / 10" by (simp add: pow10_def)
    then show ?thesis by (simp only: pow10_add)
  qed
  also have "\<dots> \<le> x / 10"
    using floor_log10_lower [OF assms(1)] by simp
  finally have ux: "u \<le> x / 10" .
  from assms(1) u have "0 \<le> x / u" by simp
  then have c0: "0 \<le> c" by (simp add: c_def)
  have "of_int c \<le> x / u" by (simp add: c_def)
  with u have cx: "of_int c * u \<le> x" by (simp add: pos_le_divide_eq)
  from assms(3) have "d = (c, u) \<or> d = (c + 1, u)"
    by (simp add: decimals_near_def Let_def u_def c_def)
  then show ?thesis
  proof
    assume "d = (c, u)"
    with c0 u cx assms(1) show ?thesis
      by (simp add: decimal_value_def)
  next
    assume "d = (c + 1, u)"
    then have "decimal_value d = of_int c * u + u"
      by (simp add: decimal_value_def algebra_simps)
    with c0 u cx ux show ?thesis by simp
  qed
qed

lemma nearest_decimal_cases:
  "nearest_decimal x ds = x \<or> (\<exists>d \<in> set ds. nearest_decimal x ds = decimal_value d)"
  by (cases ds rule: list.exhaust [case_product list.exhaust])
     (auto simp: nearest_decimal_def split: list.splits)

lemma positive_decimal_bounds:
  assumes "0 < x"
  shows "0 \<le> positive_decimal x \<and> positive_decimal x \<le> x + x / 10"
proof (cases "filter (\<lambda>n. decimals_of x n \<noteq> []) [1..<18]")
  case Nil
  with assms show ?thesis by (simp add: positive_decimal_def)
next
  case (Cons m ms)
  then have pd: "positive_decimal x = nearest_decimal x (decimals_of x (max m 2))"
    by (simp add: positive_decimal_def)
  from nearest_decimal_cases [of x "decimals_of x (max m 2)"] show ?thesis
  proof
    assume "nearest_decimal x (decimals_of x (max m 2)) = x"
    with pd assms show ?thesis by simp
  next
    assume "\<exists>d \<in> set (decimals_of x (max m 2)).
      nearest_decimal x (decimals_of x (max m 2)) = decimal_value d"
    then obtain d where d: "d \<in> set (decimals_near x (max m 2))"
      and eq: "positive_decimal x = decimal_value d"
      by (auto simp: pd decimals_of_def)
    from decimals_near_bounds [OF assms _ d] show ?thesis
      by (simp add: eq)
  qed
qed

lemma round_double_below_half_cent:
  assumes "0 \<le> x" and "x \<le> 1 / 256"
  shows "round_double (Finite x) 2 = Finite 0"
proof -
  have t: "0 \<le> double_to_decimal x \<and> double_to_decimal x \<le> x + x / 10"
  proof (cases "x = 0")
    case True
    then show ?thesis by (simp add: double_to_decimal_def)
  next
    case False
    with assms(1) have "0 < x" by simp
    from positive_decimal_bounds [OF this] \<open>0 < x\<close> show ?thesis
      by (simp add: double_to_decimal_def)
  qed
  with assms(2) have "0 \<le> double_to_decimal x * 10 ^ 2 + 1 / 2"
    and "double_to_decimal x * 10 ^ 2 + 1 / 2 < 1"
    by simp_all
  then have "\<lfloor>double_to_decimal x * 10 ^ 2 + 1 / 2\<rfloor> = 0"
    by (simp add: floor_eq_iff)
  moreover from t have "0 \<le> double_to_decimal x * 10 ^ 2" by simp
  ultimately have "round_half_up (double_to_decimal x * 10 ^ 2) = 0"
    by (simp add: round_half_up_def)
  then show ?thesis
    by (simp add: round_double_def round_binary64_def)
qed

text \<open>The doubles 1 and 3 print as \<open>1.0\<close> and \<open>3.0\<close>, and are rounded to themselves.\<close>

lemma positive_decimal_one_digit:
  "decimals_of x 1 \<noteq> [] \<Longrightarrow> positive_decimal x = nearest_decimal x (decimals_of x 2)"
  by (simp add: positive_decimal_def upt_conv_Cons eval_nat_numeral)

lemma round_binary64_1: "round_binary64 1 = Finite 1"
  using round_binary64_finite [where x = 1 and e = 0 and n = 4503599627370496, OF _ _ _ refl]
  by (simp add: pow2_def)

lemma round_binary64_2: "round_binary64 2 = Finite 2"
  using round_binary64_finite [where x = 2 and e = 1 and n = 4503599627370496, OF _ _ _ refl]
  by (simp add: pow2_def)

lemma round_binary64_3: "round_binary64 3 = Finite 3"
  using round_binary64_finite [where x = 3 and e = 1 and n = 6755399441055744, OF _ _ _ refl]
  by (simp add: pow2_def)

lemma round_binary64_4: "round_binary64 4 = Finite 4"
  using round_binary64_finite [where x = 4 and e = 2 and n = 4503599627370496, OF _ _ _ refl]
  by (simp add: pow2_def)

lemma round_binary64_11_10: "round_binary64 (11 / 10) = Finite (2476979795053773 / 2251799813685248)"
  using round_binary64_finite [where x = "11 / 10" and e = 0 and n = 4953959590107546, OF _ _ _ refl]
  by (simp add: pow2_def)

lemma round_binary64_31_10: "round_binary64 (31 / 10) = Finite (6980579422424269 / 2251799813685248)"
  using round_binary64_finite [where x = "31 / 10" and e = 1 and n = 6980579422424269, OF _ _ _ refl]
  by (simp add: pow2_def)

lemma declen_1: "declen 1 = 1"
  by (simp add: declen.simps)

lemma declen_3: "declen 3 = 1"
  by (simp add: declen.simps)

lemma floor_log10_1: "floor_log10 1 = 0"
  by (simp add: floor_log10_def declen_1 pow10_def)

lemma floor_log10_3: "floor_log10 3 = 0"
  by (simp add: floor_log10_def declen_1 declen_3 pow10_def quotient_of_number)

lemma double_to_decimal_1: "double_to_decimal 1 = 1"
proof -
  have "decimals_of 1 1 \<noteq> []"
    by (simp add: Let_def decimals_of_def decimals_near_def floor_log10_1 pow10_def decimal_value_def
          round_binary64_1 round_binary64_2)
  then have "positive_decimal 1 = nearest_decimal 1 (decimals_of 1 2)"
    by (rule positive_decimal_one_digit)
  also have "decimals_of 1 2 = [(10, 1 / 10)]"
    by (simp add: Let_def decimals_of_def decimals_near_def floor_log10_1 pow10_def decimal_value_def
          round_binary64_1 round_binary64_11_10)
  finally show ?thesis
    by (simp add: double_to_decimal_def nearest_decimal_def decimal_value_def)
qed

lemma double_to_decimal_3: "double_to_decimal 3 = 3"
proof -
  have "decimals_of 3 1 \<noteq> []"
    by (simp add: Let_def decimals_of_def decimals_near_def floor_log10_3 pow10_def decimal_value_def
          round_binary64_3 round_binary64_4)
  then have "positive_decimal 3 = nearest_decimal 3 (decimals_of 3 2)"
    by (rule positive_decimal_one_digit)
  also have "decimals_of 3 2 = [(30, 1 / 10)]"
    by (simp add: Let_def decimals_of_def decimals_near_def floor_log10_3 pow10_def decimal_value_def
          round_binary64_3 round_binary64_31_10)
  finally show ?thesis
    by (simp add: double_to_decimal_def nearest_decimal_def decimal_value_def)
qed

lemma round_double_1: "round_double (Finite 1) 2 = Finite 1"
  by (simp add: round_double_def double_to_decimal_1 round_half_up_def floor_rat_numeral_div round_binary64_1)

lemma round_double_3: "round_double (Finite 3) 2 = Finite 3"
  by (simp add: round_double_def double_to_decimal_3 round_half_up_def floor_rat_numeral_div round_binary64_3)

section \<open>Properties of \<open>ORDER BY ... DESC LIMIT n\<close>\<close>

text \<open>A result exists (sorting and taking the first \<open>n\<close> rows gives one); the results do
  not depend on the order of the input rows; and all results have the same sequence of
  keys, the \<open>n\<close> greatest keys of the input in descending order.\<close>

lemma sorted_rev_take_drop:
  assumes "sorted (rev (map key xs))"
    and "a \<in> set (take n xs)" and "b \<in> set (drop n xs)"
  shows "key b \<le> key a"
proof -
  from assms(2) obtain i where i: "i < length (take n xs)" "a = take n xs ! i"
    by (auto simp: in_set_conv_nth)
  from assms(3) obtain j where j: "j < length (drop n xs)" "b = drop n xs ! j"
    by (auto simp: in_set_conv_nth)
  from i have ia: "i < n" "i < length xs" "a = xs ! i" by simp_all
  from j have jb: "n + j < length xs" "b = xs ! (n + j)" by simp_all
  have desc: "sorted_wrt (\<lambda>x y. key y \<le> key x) xs"
    using assms(1) by (simp add: sorted_wrt_rev sorted_wrt_map)
  from ia jb have "i < n + j" by simp
  with desc jb(1) have "key (xs ! (n + j)) \<le> key (xs ! i)"
    by (simp add: sorted_wrt_iff_nth_less)
  with ia jb show ?thesis by simp
qed

lemma order_by_desc_limitI:
  assumes "mset rows = mset result + mset rest"
    and "length result = min n (length rows)"
    and "sorted (rev (map key result))"
    and "\<forall>r \<in> set result. \<forall>r' \<in> set rest. key r' \<le> key r"
  shows "order_by_desc_limit key n rows result"
proof -
  from assms(1) have "mset result \<subseteq># mset rows" by simp
  moreover from assms(1) have "mset rows - mset result = mset rest" by simp
  ultimately show ?thesis
    using assms(2,3,4) by (simp add: order_by_desc_limit_def)
qed

lemma order_by_desc_limit_sorted:
  "order_by_desc_limit key n rows (take n (rev (sort_key key (rev rows))))"
proof (rule order_by_desc_limitI)
  let ?S = "rev (sort_key key (rev rows))"
  have S: "sorted (rev (map key ?S))"
    by (simp add: rev_map)
  have "mset rows = mset ?S" by simp
  also have "\<dots> = mset (take n ?S) + mset (drop n ?S)"
    by (simp only: mset_append [symmetric] append_take_drop_id)
  finally show "mset rows = mset (take n ?S) + mset (drop n ?S)" .
  show "length (take n ?S) = min n (length rows)"
    by (simp add: min.commute)
  have "sorted_wrt (\<lambda>x y. y \<le> x) (map key ?S)"
    using S by (simp only: sorted_wrt_rev)
  then have "sorted_wrt (\<lambda>x y. y \<le> x) (take n (map key ?S))"
    by (rule sorted_wrt_take)
  then show "sorted (rev (map key (take n ?S)))"
    by (simp only: sorted_wrt_rev take_map)
  show "\<forall>r \<in> set (take n ?S). \<forall>r' \<in> set (drop n ?S). key r' \<le> key r"
    using sorted_rev_take_drop [OF S] by blast
qed

lemma order_by_desc_limit_mset:
  "mset rows = mset rows' \<Longrightarrow>
   order_by_desc_limit key n rows result = order_by_desc_limit key n rows' result"
  using mset_eq_length [of rows rows'] by (simp add: order_by_desc_limit_def)

lemma order_by_desc_limit_keys:
  assumes "order_by_desc_limit key n rows result"
  shows "map key result = take n (rev (sort (map key rows)))"
proof -
  from assms have len: "length result = min n (length rows)"
    and sub: "mset result \<subseteq># mset rows"
    and srt: "sorted (rev (map key result))"
    and top: "\<forall>r \<in> set result. \<forall>r' \<in># mset rows - mset result. key r' \<le> key r"
    by (simp_all add: order_by_desc_limit_def)
  obtain rest where rest: "mset rest = mset rows - mset result"
    using ex_mset by blast
  define R where "R = rev (sort_key key rest)"
  have R: "mset R = mset rest" "set R = set rest" "sorted (rev (map key R))"
    by (simp_all add: R_def rev_map)
  have rows: "mset rows = mset (result @ R)"
    using sub by (simp add: R(1) rest)
  have "set rest = set_mset (mset rows - mset result)"
    by (simp add: rest [symmetric])
  with top have cross: "\<forall>r \<in> set result. \<forall>r' \<in> set R. key r' \<le> key r"
    by (simp add: R(2))
  have "sorted (rev (map key (result @ R)))"
    using srt R(3) cross by (auto simp: sorted_append)
  moreover have "mset (rev (map key (result @ R))) = mset (map key rows)"
    by (simp add: rows)
  ultimately have "sort (map key rows) = rev (map key (result @ R))"
    by (metis properties_for_sort)
  then have "rev (sort (map key rows)) = map key result @ map key R"
    by simp
  then have "take (length result) (rev (sort (map key rows))) = map key result"
    by simp
  moreover have "take (length result) (rev (sort (map key rows))) =
      take n (rev (sort (map key rows)))"
    by (simp add: len min_def)
  ultimately show ?thesis by simp
qed

lemma mset_subset_mem: "mset xs \<subseteq># mset ys \<Longrightarrow> x \<in> set xs \<Longrightarrow> x \<in> set ys"
  by (metis mset_subset_eqD set_mset_mset)

lemma sort_mset_cong: "mset xs = mset ys \<Longrightarrow> sort xs = sort ys"
  by (rule properties_for_sort) simp_all

section \<open>The left join (C1)\<close>

text \<open>
  C1. The view \<open>df_transactions_complete\<close> is the left outer join of the transactions with
  the transfer logs on block number, timestamp and transaction hash. Each transaction
  record contributes, at its place in the input, a block of at least one row carrying its
  key; when no log has its key the block is exactly one row whose three token columns are
  null, and otherwise it is one row for each log with its key. The view
  \<open>df_logs_tether_clean\<close> is exactly the rows of the join whose token columns are not null,
  which are the rows of the matching pairs.
\<close>

theorem left_join_semantics:
  "df_transactions_complete eng (ts1 @ t # ts2) logs =
     df_transactions_complete eng ts1 logs @ left_join_rows eng logs t
       @ df_transactions_complete eng ts2 logs
   \<and> 1 \<le> length (left_join_rows eng logs t)
   \<and> (\<forall>r \<in> set (left_join_rows eng logs t).
        block_number r = t_block_number t \<and> unix_timestamp r = t_timestamp t
        \<and> transaction_hash r = t_transaction_hash t)
   \<and> ((\<forall>l \<in> set logs. \<not> (t_block_number t = l_block_number l \<and> t_timestamp t = l_timestamp l
                              \<and> t_transaction_hash t = l_transaction_hash l)) \<longrightarrow>
        (\<exists>r. left_join_rows eng logs t = [r] \<and> log_from_address r = None
              \<and> log_to_address r = None \<and> log_value_usdt r = None))
   \<and> left_join_rows eng logs t =
       (let matches = filter (\<lambda>l. t_block_number t = l_block_number l \<and> t_timestamp t = l_timestamp l
                                   \<and> t_transaction_hash t = l_transaction_hash l) logs
        in if matches = [] then [select_row eng t None]
           else map (\<lambda>l. select_row eng t (Some l)) matches)
   \<and> df_logs_tether_clean (df_transactions_complete eng txs logs) =
       filter (\<lambda>r. log_from_address r \<noteq> None \<and> log_to_address r \<noteq> None \<and> log_value_usdt r \<noteq> None)
         (df_transactions_complete eng txs logs)
   \<and> df_logs_tether_clean (df_transactions_complete eng txs logs) =
       concat (map (\<lambda>t. map (\<lambda>l. select_row eng t (Some l)) (filter (join_on t) logs)) txs)"
proof -
  have jo: "join_on t = (\<lambda>l. t_block_number t = l_block_number l \<and> t_timestamp t = l_timestamp l
                                   \<and> t_transaction_hash t = l_transaction_hash l)"
    by (auto simp: join_on_def fun_eq_iff)
  have a: "df_transactions_complete eng (ts1 @ t # ts2) logs =
     df_transactions_complete eng ts1 logs @ left_join_rows eng logs t
       @ df_transactions_complete eng ts2 logs"
    by (simp add: df_transactions_complete_append)
  have b: "1 \<le> length (left_join_rows eng logs t)"
    using left_join_rows_nonempty [of eng logs t] by (cases "left_join_rows eng logs t") simp_all
  have c: "\<forall>r \<in> set (left_join_rows eng logs t).
        block_number r = t_block_number t \<and> unix_timestamp r = t_timestamp t
        \<and> transaction_hash r = t_transaction_hash t"
    by (auto simp: left_join_rows_def select_row_def split: list.splits)
  have d: "(\<forall>l \<in> set logs. \<not> (t_block_number t = l_block_number l \<and> t_timestamp t = l_timestamp l
                              \<and> t_transaction_hash t = l_transaction_hash l)) \<longrightarrow>
        (\<exists>r. left_join_rows eng logs t = [r] \<and> log_from_address r = None
              \<and> log_to_address r = None \<and> log_value_usdt r = None)"
  proof
    assume "\<forall>l \<in> set logs. \<not> (t_block_number t = l_block_number l \<and> t_timestamp t = l_timestamp l
                              \<and> t_transaction_hash t = l_transaction_hash l)"
    then have "filter (join_on t) logs = []"
      by (auto simp: filter_empty_conv join_on_def)
    then have "left_join_rows eng logs t = [select_row eng t None]"
      by (rule left_join_rows_unmatched)
    then show "\<exists>r. left_join_rows eng logs t = [r] \<and> log_from_address r = None
              \<and> log_to_address r = None \<and> log_value_usdt r = None"
      by (simp add: select_row_token_fields)
  qed
  have e: "left_join_rows eng logs t =
       (let matches = filter (\<lambda>l. t_block_number t = l_block_number l \<and> t_timestamp t = l_timestamp l
                                   \<and> t_transaction_hash t = l_transaction_hash l) logs
        in if matches = [] then [select_row eng t None]
           else map (\<lambda>l. select_row eng t (Some l)) matches)"
    unfolding jo [symmetric] Let_def
    by (simp add: left_join_rows_unmatched left_join_rows_matched)
  have f: "df_logs_tether_clean (df_transactions_complete eng txs logs) =
       filter (\<lambda>r. log_from_address r \<noteq> None \<and> log_to_address r \<noteq> None \<and> log_value_usdt r \<noteq> None)
         (df_transactions_complete eng txs logs)"
  proof -
    have "\<forall>r \<in> set (df_transactions_complete eng txs logs).
      (log_from_address r = None \<and> log_to_address r = None \<and> log_value_usdt r = None)
      \<or> (log_from_address r \<noteq> None \<and> log_to_address r \<noteq> None \<and> log_value_usdt r \<noteq> None)"
      using df_transactions_complete_conull by blast
    then show ?thesis
      unfolding df_logs_tether_clean_def by (intro filter_cong) auto
  qed
  have g: "df_logs_tether_clean (df_transactions_complete eng txs logs) =
       concat (map (\<lambda>t. map (\<lambda>l. select_row eng t (Some l)) (filter (join_on t) logs)) txs)"
    by (rule clean_is_inner_join)
  show ?thesis
    by (intro conjI) (rule a, rule b, rule c, rule d, rule e, rule f, rule g)
qed

theorem left_join_semantics_witness:
  "let eng = \<lparr>ROUND = (\<lambda>d n. d), madrid_timestamp = (\<lambda>ts. ts + 3600)\<rparr>;
       t = \<lparr>t_block_number = 1, t_timestamp = 100, t_from_address = ''0xA1'',
            t_to_address = Some ''0xB2'', t_value = Finite 0, t_transaction_hash = ''01'',
            t_gas_price = Finite 0, t_gas_used = 21000, t_gas_fee = Finite 0\<rparr>;
       u = \<lparr>t_block_number = 1, t_timestamp = 100, t_from_address = ''0xA1'',
            t_to_address = Some ''0xB2'', t_value = Finite 0, t_transaction_hash = ''02'',
            t_gas_price = Finite 0, t_gas_used = 21000, t_gas_fee = Finite 0\<rparr>;
       l = \<lparr>l_block_number = 1, l_timestamp = 100, l_from_address = ''0xc3'',
            l_to_address = ''0xd4'', l_value_usdt = 5, l_transaction_hash = ''01''\<rparr>
   in (\<forall>m \<in> set [l]. \<not> (t_block_number u = l_block_number m \<and> t_timestamp u = l_timestamp m
                             \<and> t_transaction_hash u = l_transaction_hash m))
      \<and> left_join_rows eng [l] u = [select_row eng u None]
      \<and> left_join_rows eng [l] t = [select_row eng t (Some l)]
      \<and> df_transactions_complete eng [t, u] [l] = [select_row eng t (Some l), select_row eng u None]
      \<and> df_logs_tether_clean (df_transactions_complete eng [t, u] [l]) = [select_row eng t (Some l)]"
  using left_join_semantics
    [of "\<lparr>ROUND = (\<lambda>d n. d), madrid_timestamp = (\<lambda>ts. ts + 3600)\<rparr>"
        "[\<lparr>t_block_number = 1, t_timestamp = 100, t_from_address = ''0xA1'',
            t_to_address = Some ''0xB2'', t_value = Finite 0, t_transaction_hash = ''01'',
            t_gas_price = Finite 0, t_gas_used = 21000, t_gas_fee = Finite 0\<rparr>]"
        "\<lparr>t_block_number = 1, t_timestamp = 100, t_from_address = ''0xA1'',
            t_to_address = Some ''0xB2'', t_value = Finite 0, t_transaction_hash = ''02'',
            t_gas_price = Finite 0, t_gas_used = 21000, t_gas_fee = Finite 0\<rparr>"
        "[]"
        "[\<lparr>l_block_number = 1, l_timestamp = 100, l_from_address = ''0xc3'',
            l_to_address = ''0xd4'', l_value_usdt = 5, l_transaction_hash = ''01''\<rparr>]"
        "[\<lparr>t_block_number = 1, t_timestamp = 100, t_from_address = ''0xA1'',
            t_to_address = Some ''0xB2'', t_value = Finite 0, t_transaction_hash = ''01'',
            t_gas_price = Finite 0, t_gas_used = 21000, t_gas_fee = Finite 0\<rparr>,
          \<lparr>t_block_number = 1, t_timestamp = 100, t_from_address = ''0xA1'',
            t_to_address = Some ''0xB2'', t_value = Finite 0, t_transaction_hash = ''02'',
            t_gas_price = Finite 0, t_gas_used = 21000, t_gas_fee = Finite 0\<rparr>]"]
  by (simp add: Let_def left_join_rows_def join_on_def select_row_token_fields)

section \<open>Token columns are null together (C9)\<close>

text \<open>
  C9. In every row of \<open>df_transactions_complete\<close> the columns \<open>log_from_address\<close>,
  \<open>log_to_address\<close> and \<open>log_value_usdt\<close> are all null or all not null, so the filter of
  \<open>df_logs_tether_clean\<close> on \<open>log_value_usdt\<close> alone selects exactly the rows in which all
  three are not null.
\<close>

theorem token_fields_null_together:
  "(\<forall>r \<in> set (df_transactions_complete eng txs logs).
      (log_from_address r = None \<and> log_to_address r = None \<and> log_value_usdt r = None)
      \<or> (log_from_address r \<noteq> None \<and> log_to_address r \<noteq> None \<and> log_value_usdt r \<noteq> None))
   \<and> df_logs_tether_clean (df_transactions_complete eng txs logs) =
       filter (\<lambda>r. log_from_address r \<noteq> None \<and> log_to_address r \<noteq> None \<and> log_value_usdt r \<noteq> None)
         (df_transactions_complete eng txs logs)"
proof
  show "\<forall>r \<in> set (df_transactions_complete eng txs logs).
      (log_from_address r = None \<and> log_to_address r = None \<and> log_value_usdt r = None)
      \<or> (log_from_address r \<noteq> None \<and> log_to_address r \<noteq> None \<and> log_value_usdt r \<noteq> None)"
    using df_transactions_complete_conull by blast
  then show "df_logs_tether_clean (df_transactions_complete eng txs logs) =
       filter (\<lambda>r. log_from_address r \<noteq> None \<and> log_to_address r \<noteq> None \<and> log_value_usdt r \<noteq> None)
         (df_transactions_complete eng txs logs)"
    unfolding df_logs_tether_clean_def by (intro filter_cong) auto
qed

theorem token_fields_null_together_witness:
  "let eng = \<lparr>ROUND = (\<lambda>d n. d), madrid_timestamp = (\<lambda>ts. ts + 3600)\<rparr>;
       t = \<lparr>t_block_number = 1, t_timestamp = 100, t_from_address = ''0xA1'',
            t_to_address = Some ''0xB2'', t_value = Finite 0, t_transaction_hash = ''01'',
            t_gas_price = Finite 0, t_gas_used = 21000, t_gas_fee = Finite 0\<rparr>;
       l = \<lparr>l_block_number = 1, l_timestamp = 100, l_from_address = ''0xc3'',
            l_to_address = ''0xd4'', l_value_usdt = 5, l_transaction_hash = ''01''\<rparr>;
       rows = df_transactions_complete eng [t, t\<lparr>t_transaction_hash := ''02''\<rparr>] [l]
   in rows = [select_row eng t (Some l), select_row eng (t\<lparr>t_transaction_hash := ''02''\<rparr>) None]
      \<and> (\<forall>r \<in> set rows.
            (log_from_address r = None \<and> log_to_address r = None \<and> log_value_usdt r = None)
            \<or> (log_from_address r \<noteq> None \<and> log_to_address r \<noteq> None \<and> log_value_usdt r \<noteq> None))
      \<and> df_logs_tether_clean rows = [select_row eng t (Some l)]"
  using token_fields_null_together
    [of "\<lparr>ROUND = (\<lambda>d n. d), madrid_timestamp = (\<lambda>ts. ts + 3600)\<rparr>"
        "[\<lparr>t_block_number = 1, t_timestamp = 100, t_from_address = ''0xA1'',
            t_to_address = Some ''0xB2'', t_value = Finite 0, t_transaction_hash = ''01'',
            t_gas_price = Finite 0, t_gas_used = 21000, t_gas_fee = Finite 0\<rparr>,
          \<lparr>t_block_number = 1, t_timestamp = 100, t_from_address = ''0xA1'',
            t_to_address = Some ''0xB2'', t_value = Finite 0, t_transaction_hash = ''02'',
            t_gas_price = Finite 0, t_gas_used = 21000, t_gas_fee = Finite 0\<rparr>]"
        "[\<lparr>l_block_number = 1, l_timestamp = 100, l_from_address = ''0xc3'',
            l_to_address = ''0xd4'', l_value_usdt = 5, l_transaction_hash = ''01''\<rparr>]"]
  by (simp add: Let_def left_join_rows_def join_on_def select_row_token_fields)

section \<open>The burn count (C7)\<close>

text \<open>
  C7. On \<open>df_logs_tether_clean\<close> the burn count is the number of rows whose receiver is the
  zero address and whose sender is not. On the two rows with sender \<open>0xAAA\<close> and receiver
  the zero address, and with sender and receiver both the zero address, it is 1.
\<close>

theorem burning_counts_burns:
  "burning (df_logs_tether_clean (df_transactions_complete eng txs logs)) =
     length (filter (\<lambda>r. log_to_address r = Some zero_address \<and> log_from_address r \<noteq> Some zero_address)
               (df_logs_tether_clean (df_transactions_complete eng txs logs)))
   \<and> burning [r1\<lparr>log_from_address := Some ''0xAAA'', log_to_address := Some zero_address\<rparr>,
               r2\<lparr>log_from_address := Some zero_address, log_to_address := Some zero_address\<rparr>] = 1"
proof
  have "filter (\<lambda>r. sql_and (sql_eq (log_to_address r) (Some zero_address))
                          (sql_neq (log_from_address r) (Some zero_address)) = Some True)
          (df_logs_tether_clean (df_transactions_complete eng txs logs)) =
        filter (\<lambda>r. log_to_address r = Some zero_address \<and> log_from_address r \<noteq> Some zero_address)
          (df_logs_tether_clean (df_transactions_complete eng txs logs))"
  proof (rule filter_cong [OF refl])
    fix r
    assume "r \<in> set (df_logs_tether_clean (df_transactions_complete eng txs logs))"
    then have "log_to_address r \<noteq> None" and "log_from_address r \<noteq> None"
      by (simp_all add: clean_rows_all_set)
    then show "(sql_and (sql_eq (log_to_address r) (Some zero_address))
                    (sql_neq (log_from_address r) (Some zero_address)) = Some True) =
               (log_to_address r = Some zero_address \<and> log_from_address r \<noteq> Some zero_address)"
      by (rule burn_predicate)
  qed
  then show "burning (df_logs_tether_clean (df_transactions_complete eng txs logs)) =
     length (filter (\<lambda>r. log_to_address r = Some zero_address \<and> log_from_address r \<noteq> Some zero_address)
               (df_logs_tether_clean (df_transactions_complete eng txs logs)))"
    by (simp add: burning_def sql_where_def)
  show "burning [r1\<lparr>log_from_address := Some ''0xAAA'', log_to_address := Some zero_address\<rparr>,
               r2\<lparr>log_from_address := Some zero_address, log_to_address := Some zero_address\<rparr>] = 1"
    by (simp add: burning_def sql_where_def sql_and_def sql_eq_def sql_neq_def zero_address_def)
qed

theorem burning_counts_burns_witness:
  "let eng = \<lparr>ROUND = (\<lambda>d n. d), madrid_timestamp = (\<lambda>ts. ts + 3600)\<rparr>;
       t = \<lparr>t_block_number = 1, t_timestamp = 100, t_from_address = ''0xA1'',
            t_to_address = Some ''0xB2'', t_value = Finite 0, t_transaction_hash = ''01'',
            t_gas_price = Finite 0, t_gas_used = 21000, t_gas_fee = Finite 0\<rparr>;
       l = \<lparr>l_block_number = 1, l_timestamp = 100, l_from_address = ''0xc3'',
            l_to_address = zero_address, l_value_usdt = 5, l_transaction_hash = ''01''\<rparr>
   in df_logs_tether_clean (df_transactions_complete eng [t] [l, l\<lparr>l_to_address := ''0xd4''\<rparr>]) =
        [select_row eng t (Some l), select_row eng t (Some (l\<lparr>l_to_address := ''0xd4''\<rparr>))]
      \<and> burning (df_logs_tether_clean
                   (df_transactions_complete eng [t] [l, l\<lparr>l_to_address := ''0xd4''\<rparr>])) = 1"
  using burning_counts_burns
    [of "\<lparr>ROUND = (\<lambda>d n. d), madrid_timestamp = (\<lambda>ts. ts + 3600)\<rparr>"
        "[\<lparr>t_block_number = 1, t_timestamp = 100, t_from_address = ''0xA1'',
            t_to_address = Some ''0xB2'', t_value = Finite 0, t_transaction_hash = ''01'',
            t_gas_price = Finite 0, t_gas_used = 21000, t_gas_fee = Finite 0\<rparr>]"
        "[\<lparr>l_block_number = 1, l_timestamp = 100, l_from_address = ''0xc3'',
            l_to_address = zero_address, l_value_usdt = 5, l_transaction_hash = ''01''\<rparr>,
          \<lparr>l_block_number = 1, l_timestamp = 100, l_from_address = ''0xc3'',
            l_to_address = ''0xd4'', l_value_usdt = 5, l_transaction_hash = ''01''\<rparr>]"]
  by (simp add: Let_def left_join_rows_def join_on_def select_row_token_fields
        df_logs_tether_clean_def zero_address_def)

section \<open>Time between blocks (C4)\<close>

text \<open>
  C4. The time-between-blocks query has one row for each \<open>(block_number, timestamp)\<close> of the
  view, with the greatest \<open>unix_timestamp\<close> of the group, in the order of the block numbers;
  each row carries the \<open>unix_timestamp\<close> of the row before it and the difference to it, the
  first row none and 0. The monitoring query keeps exactly the rows with a difference
  greater than 12. On blocks with epoch timestamps 100, 105, 130 and 131 the differences
  are 0, 5, 25 and 1, and only the row of the third block is kept.
\<close>

theorem time_between_blocks_semantics:
  "distinct (map (\<lambda>b. (b_block_number b, b_timestamp b)) (time_between_blocks rows))
   \<and> set (map (\<lambda>b. (b_block_number b, b_timestamp b)) (time_between_blocks rows)) =
       (\<lambda>r. (block_number r, timestamp r)) ` set rows
   \<and> (\<forall>b \<in> set (time_between_blocks rows).
        b_unix_timestamp b =
          Some (Max (unix_timestamp `
            {r \<in> set rows. block_number r = b_block_number b \<and> timestamp r = b_timestamp b})))
   \<and> sorted (map b_block_number (time_between_blocks rows))
   \<and> (\<forall>i < length (time_between_blocks rows).
        unix_prev_timestamp (time_between_blocks rows ! i) =
           (if i = 0 then None else b_unix_timestamp (time_between_blocks rows ! (i - 1)))
         \<and> (i = 0 \<longrightarrow> time_diff_in_seconds (time_between_blocks rows ! i) = 0)
         \<and> (0 < i \<longrightarrow>
              (\<exists>u p. b_unix_timestamp (time_between_blocks rows ! i) = Some u
                     \<and> b_unix_timestamp (time_between_blocks rows ! (i - 1)) = Some p
                     \<and> time_diff_in_seconds (time_between_blocks rows ! i) = u - p)))
   \<and> (\<forall>q. q \<in> set (block_times_monitoring (time_between_blocks rows)) \<longleftrightarrow>
        (\<exists>b \<in> set (time_between_blocks rows). 12 < time_diff_in_seconds b
           \<and> q = (b_block_number b, b_timestamp b, b_unix_timestamp b, unix_prev_timestamp b)))
   \<and> (let synthetic =
            [r\<lparr>block_number := 1, unix_timestamp := 100, timestamp := 3700\<rparr>,
             r\<lparr>block_number := 1, unix_timestamp := 100, timestamp := 3700\<rparr>,
             r\<lparr>block_number := 2, unix_timestamp := 105, timestamp := 3705\<rparr>,
             r\<lparr>block_number := 3, unix_timestamp := 130, timestamp := 3730\<rparr>,
             r\<lparr>block_number := 4, unix_timestamp := 131, timestamp := 3731\<rparr>]
       in map time_diff_in_seconds (time_between_blocks synthetic) = [0, 5, 25, 1]
          \<and> block_times_monitoring (time_between_blocks synthetic) =
              [(3, 3730, Some 130, Some 105)])"
proof (intro conjI)
  show "distinct (map (\<lambda>b. (b_block_number b, b_timestamp b)) (time_between_blocks rows))"
    by (simp only: time_between_blocks_keys distinct_grouped_keys)
  show "set (map (\<lambda>b. (b_block_number b, b_timestamp b)) (time_between_blocks rows)) =
       (\<lambda>r. (block_number r, timestamp r)) ` set rows"
  proof -
    have "set (map (\<lambda>g. (g_block_number g, g_timestamp g))
                 (sort_key g_block_number (grouped_data rows))) =
          (\<lambda>g. (g_block_number g, g_timestamp g)) ` set (grouped_data rows)"
      by simp
    also have "\<dots> = (\<lambda>r. (block_number r, timestamp r)) ` set rows"
      unfolding set_grouped_data by (simp add: image_image group_row_fields)
    finally show ?thesis
      by (simp only: time_between_blocks_keys)
  qed
  show "\<forall>b \<in> set (time_between_blocks rows).
        b_unix_timestamp b =
          Some (Max (unix_timestamp `
            {r \<in> set rows. block_number r = b_block_number b \<and> timestamp r = b_timestamp b}))"
    using time_between_blocks_unix by blast
  show "sorted (map b_block_number (time_between_blocks rows))"
    by (rule time_between_blocks_sorted)
  show "\<forall>i < length (time_between_blocks rows).
        unix_prev_timestamp (time_between_blocks rows ! i) =
           (if i = 0 then None else b_unix_timestamp (time_between_blocks rows ! (i - 1)))
         \<and> (i = 0 \<longrightarrow> time_diff_in_seconds (time_between_blocks rows ! i) = 0)
         \<and> (0 < i \<longrightarrow>
              (\<exists>u p. b_unix_timestamp (time_between_blocks rows ! i) = Some u
                     \<and> b_unix_timestamp (time_between_blocks rows ! (i - 1)) = Some p
                     \<and> time_diff_in_seconds (time_between_blocks rows ! i) = u - p))"
    using time_between_blocks_diff by blast
  show "\<forall>q. q \<in> set (block_times_monitoring (time_between_blocks rows)) \<longleftrightarrow>
        (\<exists>b \<in> set (time_between_blocks rows). 12 < time_diff_in_seconds b
           \<and> q = (b_block_number b, b_timestamp b, b_unix_timestamp b, unix_prev_timestamp b))"
    by (auto simp: block_times_monitoring_def)
  show "let synthetic =
            [r\<lparr>block_number := 1, unix_timestamp := 100, timestamp := 3700\<rparr>,
             r\<lparr>block_number := 1, unix_timestamp := 100, timestamp := 3700\<rparr>,
             r\<lparr>block_number := 2, unix_timestamp := 105, timestamp := 3705\<rparr>,
             r\<lparr>block_number := 3, unix_timestamp := 130, timestamp := 3730\<rparr>,
             r\<lparr>block_number := 4, unix_timestamp := 131, timestamp := 3731\<rparr>]
       in map time_diff_in_seconds (time_between_blocks synthetic) = [0, 5, 25, 1]
          \<and> block_times_monitoring (time_between_blocks synthetic) =
              [(3, 3730, Some 130, Some 105)]"
    by (simp add: Let_def time_between_blocks_def grouped_data_def group_row_def
        timediff_data_def lag_def sql_minus_def coalesce_def block_times_monitoring_def
        sql_max_def)
qed

theorem time_between_blocks_semantics_witness:
  "let rows =
         [\<lparr>block_number = 7, unix_timestamp = 100, timestamp = 3700,
           transaction_hash = ''01'', tx_from_address = ''0xA1'', tx_to_address = None,
           tx_value_eth = Finite 0, tx_gas_price_eth = Finite 0, tx_gas_used = 21000,
           tx_gas_fee_eth = Finite 0, log_from_address = None, log_to_address = None,
           log_value_usdt = None\<rparr>,
          \<lparr>block_number = 7, unix_timestamp = 100, timestamp = 3700,
           transaction_hash = ''02'', tx_from_address = ''0xA1'', tx_to_address = None,
           tx_value_eth = Finite 0, tx_gas_price_eth = Finite 0, tx_gas_used = 21000,
           tx_gas_fee_eth = Finite 0, log_from_address = None, log_to_address = None,
           log_value_usdt = None\<rparr>,
          \<lparr>block_number = 8, unix_timestamp = 112, timestamp = 3712,
           transaction_hash = ''03'', tx_from_address = ''0xA1'', tx_to_address = None,
           tx_value_eth = Finite 0, tx_gas_price_eth = Finite 0, tx_gas_used = 21000,
           tx_gas_fee_eth = Finite 0, log_from_address = None, log_to_address = None,
           log_value_usdt = None\<rparr>,
          \<lparr>block_number = 9, unix_timestamp = 125, timestamp = 3725,
           transaction_hash = ''04'', tx_from_address = ''0xA1'', tx_to_address = None,
           tx_value_eth = Finite 0, tx_gas_price_eth = Finite 0, tx_gas_used = 21000,
           tx_gas_fee_eth = Finite 0, log_from_address = None, log_to_address = None,
           log_value_usdt = None\<rparr>]
   in map b_block_number (time_between_blocks rows) = [7, 8, 9]
      \<and> map b_unix_timestamp (time_between_blocks rows) = [Some 100, Some 112, Some 125]
      \<and> map unix_prev_timestamp (time_between_blocks rows) = [None, Some 100, Some 112]
      \<and> map time_diff_in_seconds (time_between_blocks rows) = [0, 12, 13]
      \<and> block_times_monitoring (time_between_blocks rows) = [(9, 3725, Some 125, Some 112)]"
  using time_between_blocks_semantics
    [of "[\<lparr>block_number = 7, unix_timestamp = 100, timestamp = 3700,
          transaction_hash = ''01'', tx_from_address = ''0xA1'', tx_to_address = None,
          tx_value_eth = Finite 0, tx_gas_price_eth = Finite 0, tx_gas_used = 21000,
          tx_gas_fee_eth = Finite 0, log_from_address = None, log_to_address = None,
          log_value_usdt = None\<rparr>,
         \<lparr>block_number = 7, unix_timestamp = 100, timestamp = 3700,
          transaction_hash = ''02'', tx_from_address = ''0xA1'', tx_to_address = None,
          tx_value_eth = Finite 0, tx_gas_price_eth = Finite 0, tx_gas_used = 21000,
          tx_gas_fee_eth = Finite 0, log_from_address = None, log_to_address = None,
          log_value_usdt = None\<rparr>,
         \<lparr>block_number = 8, unix_timestamp = 112, timestamp = 3712,
          transaction_hash = ''03'', tx_from_address = ''0xA1'', tx_to_address = None,
          tx_value_eth = Finite 0, tx_gas_price_eth = Finite 0, tx_gas_used = 21000,
          tx_gas_fee_eth = Finite 0, log_from_address = None, log_to_address = None,
          log_value_usdt = None\<rparr>,
         \<lparr>block_number = 9, unix_timestamp = 125, timestamp = 3725,
          transaction_hash = ''04'', tx_from_address = ''0xA1'', tx_to_address = None,
          tx_value_eth = Finite 0, tx_gas_price_eth = Finite 0, tx_gas_used = 21000,
          tx_gas_fee_eth = Finite 0, log_from_address = None, log_to_address = None,
          log_value_usdt = None\<rparr>]"
        "\<lparr>block_number = 7, unix_timestamp = 100, timestamp = 3700,
           transaction_hash = ''01'', tx_from_address = ''0xA1'', tx_to_address = None,
           tx_value_eth = Finite 0, tx_gas_price_eth = Finite 0, tx_gas_used = 21000,
           tx_gas_fee_eth = Finite 0, log_from_address = None, log_to_address = None,
           log_value_usdt = None\<rparr>"]
  by (simp add: Let_def time_between_blocks_def grouped_data_def group_row_def
        timediff_data_def lag_def sql_minus_def coalesce_def block_times_monitoring_def
        sql_max_def)

section \<open>Failures of the transaction extraction (C3)\<close>

text \<open>
  C3, as stated: a fetch failure aborts the extraction, and the raised error identifies the
  failing block and, for a receipt failure, the failing transaction. The second part
  fails: the exception of line 53 carries the block number and the text of the cause, not
  the transaction. Two clients that serve the same block of two transactions, one failing
  on the receipt of the first transaction and one on the receipt of the second, with the
  same cause, end with the same error.
\<close>

theorem receipt_error_hides_transaction:
  "let a = \<lparr>tx_hash = [0x0a], tx_gasPrice = 20000000000, tx_from = ''0xA1'',
            tx_to = Some ''0xB2'', tx_value = 1000000000000000000\<rparr>;
       b = \<lparr>tx_hash = [0x0b], tx_gasPrice = 20000000000, tx_from = ''0xA1'',
            tx_to = Some ''0xB2'', tx_value = 1000000000000000000\<rparr>;
       blk = \<lparr>block_timestamp = 100, block_transactions = [a, b]\<rparr>;
       w3a = \<lparr>is_connected = True, eth_block_number = Inr 7,
              get_block = (\<lambda>n full. if n = 7 then Inr blk else Inl ''unknown block''),
              get_transaction_receipt = (\<lambda>h. Inl ''timeout''),
              get_logs = (\<lambda>f. Inr [])\<rparr>;
       w3b = \<lparr>is_connected = True, eth_block_number = Inr 7,
              get_block = (\<lambda>n full. if n = 7 then Inr blk else Inl ''unknown block''),
              get_transaction_receipt =
                (\<lambda>h. if h = [0x0a] then Inr \<lparr>gasUsed = 21000\<rparr> else Inl ''timeout''),
              get_logs = (\<lambda>f. Inr [])\<rparr>
   in transaction_record w3a 7 blk a = Inl (ClientFailure ''timeout'')
      \<and> \<not> isl (transaction_record w3b 7 blk a)
      \<and> transaction_record w3b 7 blk b = Inl (ClientFailure ''timeout'')
      \<and> get_transactions w3a 7 7 = Inl (ErrorFetchingBlockTransactions 7 (ClientFailure ''timeout''))
      \<and> get_transactions w3b 7 7 = Inl (ErrorFetchingBlockTransactions 7 (ClientFailure ''timeout''))"
  by (simp add: Let_def get_transactions_def transaction_record_def
        truediv_20_gwei truediv_1_eth fee_20_gwei_21000)

text \<open>
  C3, amended: \<open>get_transactions\<close> returns either all records or an error and no record.
  An error names a block number of the range and carries the cause: the failure of the
  block fetch, or the failure of the processing of one of the block's transactions (the
  failing transaction itself is not named). Whenever the fetch of a block of the range
  or the receipt fetch of one of its transactions fails, the result is an error.
\<close>

theorem get_transactions_fail_fast:
  "(\<forall>err. get_transactions w3 a b = Inl err \<longrightarrow>
      (\<exists>bn. a \<le> bn \<and> bn \<le> b \<and>
         ((\<exists>e. get_block w3 bn True = Inl e \<and> err = ErrorFetchingBlock bn (ClientFailure e))
          \<or> (\<exists>blk tx c. get_block w3 bn True = Inr blk \<and> tx \<in> set (block_transactions blk)
                \<and> transaction_record w3 bn blk tx = Inl c
                \<and> err = ErrorFetchingBlockTransactions bn c))))
   \<and> ((\<exists>bn. a \<le> bn \<and> bn \<le> b \<and>
         ((\<exists>e. get_block w3 bn True = Inl e)
          \<or> (\<exists>blk tx e. get_block w3 bn True = Inr blk \<and> tx \<in> set (block_transactions blk)
                \<and> get_transaction_receipt w3 (tx_hash tx) = Inl e))) \<longrightarrow>
       (\<exists>err. get_transactions w3 a b = Inl err))"
proof (intro conjI allI impI)
  fix err
  assume "get_transactions w3 a b = Inl err"
  then have "range_loop w3 [a..b] [] = Inl err"
    by (simp add: get_transactions_def)
  from range_loop_Inl [OF this]
  show "\<exists>bn. a \<le> bn \<and> bn \<le> b \<and>
         ((\<exists>e. get_block w3 bn True = Inl e \<and> err = ErrorFetchingBlock bn (ClientFailure e))
          \<or> (\<exists>blk tx c. get_block w3 bn True = Inr blk \<and> tx \<in> set (block_transactions blk)
                \<and> transaction_record w3 bn blk tx = Inl c
                \<and> err = ErrorFetchingBlockTransactions bn c))"
    by auto
next
  assume fail: "\<exists>bn. a \<le> bn \<and> bn \<le> b \<and>
         ((\<exists>e. get_block w3 bn True = Inl e)
          \<or> (\<exists>blk tx e. get_block w3 bn True = Inr blk \<and> tx \<in> set (block_transactions blk)
                \<and> get_transaction_receipt w3 (tx_hash tx) = Inl e))"
  show "\<exists>err. get_transactions w3 a b = Inl err"
  proof (cases "get_transactions w3 a b")
    case (Inl err)
    then show ?thesis by blast
  next
    case (Inr rs)
    then have "range_loop w3 [a..b] [] = Inr rs"
      by (simp add: get_transactions_def)
    from range_loop_Inr [OF this]
    have ok: "\<forall>bn. a \<le> bn \<and> bn \<le> b \<longrightarrow> (\<exists>blk. get_block w3 bn True = Inr blk
      \<and> (\<forall>tx \<in> set (block_transactions blk). \<exists>r. transaction_record w3 bn blk tx = Inr r))"
      by simp
    from fail obtain bn where bn: "a \<le> bn" "bn \<le> b"
      and bad: "(\<exists>e. get_block w3 bn True = Inl e)
          \<or> (\<exists>blk tx e. get_block w3 bn True = Inr blk \<and> tx \<in> set (block_transactions blk)
                \<and> get_transaction_receipt w3 (tx_hash tx) = Inl e)"
      by blast
    from ok bn obtain blk where blk: "get_block w3 bn True = Inr blk"
      and txs: "\<forall>tx \<in> set (block_transactions blk). \<exists>r. transaction_record w3 bn blk tx = Inr r"
      by blast
    from bad blk obtain tx e where "tx \<in> set (block_transactions blk)"
      and "get_transaction_receipt w3 (tx_hash tx) = Inl e"
      by auto
    with txs transaction_record_receipt_fails [of w3 tx e bn blk] have False
      by auto
    then show ?thesis ..
  qed
qed

theorem get_transactions_fail_fast_witness:
  "let a = \<lparr>tx_hash = [0x0a], tx_gasPrice = 20000000000, tx_from = ''0xA1'',
            tx_to = Some ''0xB2'', tx_value = 1000000000000000000\<rparr>;
       b = \<lparr>tx_hash = [0x0b], tx_gasPrice = 20000000000, tx_from = ''0xA1'',
            tx_to = Some ''0xB2'', tx_value = 1000000000000000000\<rparr>;
       blk = \<lparr>block_timestamp = 100, block_transactions = [a, b]\<rparr>;
       w3 = \<lparr>is_connected = True, eth_block_number = Inr 7,
              get_block = (\<lambda>n full. if n = 7 then Inr blk else Inl ''unknown block''),
              get_transaction_receipt =
                (\<lambda>h. if h = [0x0a] then Inr \<lparr>gasUsed = 21000\<rparr> else Inl ''timeout''),
              get_logs = (\<lambda>f. Inr [])\<rparr>
   in get_block w3 7 True = Inr blk
      \<and> b \<in> set (block_transactions blk)
      \<and> get_transaction_receipt w3 (tx_hash b) = Inl ''timeout''
      \<and> get_transactions w3 7 7 = Inl (ErrorFetchingBlockTransactions 7 (ClientFailure ''timeout''))
      \<and> get_block w3 8 True = Inl ''unknown block''
      \<and> get_transactions w3 8 9 = Inl (ErrorFetchingBlock 8 (ClientFailure ''unknown block''))"
  using get_transactions_fail_fast
    [of "\<lparr>is_connected = True, eth_block_number = Inr 7,
              get_block = (\<lambda>n full. if n = 7
                 then Inr \<lparr>block_timestamp = 100, block_transactions =
                   [\<lparr>tx_hash = [0x0a], tx_gasPrice = 20000000000, tx_from = ''0xA1'',
            tx_to = Some ''0xB2'', tx_value = 1000000000000000000\<rparr>,
                    \<lparr>tx_hash = [0x0b], tx_gasPrice = 20000000000, tx_from = ''0xA1'',
            tx_to = Some ''0xB2'', tx_value = 1000000000000000000\<rparr>]\<rparr>
                 else Inl ''unknown block''),
              get_transaction_receipt =
                (\<lambda>h. if h = [0x0a] then Inr \<lparr>gasUsed = 21000\<rparr> else Inl ''timeout''),
              get_logs = (\<lambda>f. Inr [])\<rparr>" 7 7]
  by (simp add: Let_def get_transactions_def transaction_record_def
        truediv_20_gwei truediv_1_eth fee_20_gwei_21000)

section \<open>The gas fee (C6)\<close>

text \<open>
  C6. In every record that \<open>get_transactions\<close> returns, \<open>gas_fee\<close> is the product of
  \<open>gas_price\<close> and \<open>gas_used\<close>, computed as line 39 computes it: the float product of the
  (finite) gas price and the gas used converted to float. For a non-negative finite price
  \<open>p\<close> and a non-negative \<open>g\<close> the product is the binary64 rounding of \<open>p\<close> times (the float
  of) \<open>g\<close>, and it is not negative.
\<close>

theorem gas_fee_is_product:
  "(get_transactions w3 a b = Inr rs \<longrightarrow>
      (\<forall>r \<in> set rs. (\<exists>p. t_gas_price r = Finite p)
         \<and> float_mul_int (t_gas_price r) (t_gas_used r) = Inr (t_gas_fee r)))
   \<and> (0 \<le> p \<and> 0 \<le> g \<and> float_mul_int (Finite p) g = Inr f \<longrightarrow>
        (f = PosInf \<or> (\<exists>y. f = Finite y \<and> 0 \<le> y))
        \<and> (\<exists>gf. int_to_float g = Inr (Finite gf) \<and> f = round_binary64 (p * gf)))"
proof (intro conjI impI)
  assume "get_transactions w3 a b = Inr rs"
  then have "range_loop w3 [a..b] [] = Inr rs"
    by (simp add: get_transactions_def)
  from range_loop_fee [OF this]
  show "\<forall>r \<in> set rs. (\<exists>p. t_gas_price r = Finite p)
         \<and> float_mul_int (t_gas_price r) (t_gas_used r) = Inr (t_gas_fee r)"
    by simp
next
  assume h: "0 \<le> p \<and> 0 \<le> g \<and> float_mul_int (Finite p) g = Inr f"
  then show "f = PosInf \<or> (\<exists>y. f = Finite y \<and> 0 \<le> y)"
    using float_mul_int_nonneg [of p g f] by simp
  from h obtain d where d: "int_to_float g = Inr d" and f: "f = double_mul (Finite p) d"
    by (auto simp: float_mul_int_def split: sum.splits)
  from int_to_float_finite [OF d] obtain gf where "d = Finite gf" by blast
  with d f show "\<exists>gf. int_to_float g = Inr (Finite gf) \<and> f = round_binary64 (p * gf)"
    by (simp add: double_mul_def)
qed

theorem gas_fee_is_product_witness:
  "let w3 = \<lparr>is_connected = True, eth_block_number = Inr 7,
           get_block = (\<lambda>n full. if n = 7
              then Inr \<lparr>block_timestamp = 100, block_transactions =
                [\<lparr>tx_hash = [0x0a], tx_gasPrice = 20000000000, tx_from = ''0xA1'',
               tx_to = Some ''0xB2'', tx_value = 1000000000000000000\<rparr>]\<rparr>
              else Inr \<lparr>block_timestamp = 100 + 12 * (n - 7), block_transactions = []\<rparr>),
           get_transaction_receipt = (\<lambda>h. Inr \<lparr>gasUsed = 21000\<rparr>),
           get_logs = (\<lambda>f. Inr [])\<rparr>
   in get_transactions w3 7 7 =
        Inr [\<lparr>t_block_number = 7, t_timestamp = 100, t_from_address = ''0xA1'',
            t_to_address = Some ''0xB2'', t_value = Finite 1, t_transaction_hash = ''0a'',
            t_gas_price = Finite (3022314549036573 / 151115727451828646838272), t_gas_used = 21000,
            t_gas_fee = Finite (1936908127739503 / 4611686018427387904)\<rparr>]
      \<and> float_mul_int (Finite (3022314549036573 / 151115727451828646838272)) 21000 =
          Inr (Finite (1936908127739503 / 4611686018427387904))
      \<and> (0::rat) \<le> 3022314549036573 / 151115727451828646838272 \<and> (0::int) \<le> 21000
      \<and> (0::rat) \<le> 1936908127739503 / 4611686018427387904"
  using gas_fee_is_product
    [of "\<lparr>is_connected = True, eth_block_number = Inr 7,
           get_block = (\<lambda>n full. if n = 7
              then Inr \<lparr>block_timestamp = 100, block_transactions =
                [\<lparr>tx_hash = [0x0a], tx_gasPrice = 20000000000, tx_from = ''0xA1'',
               tx_to = Some ''0xB2'', tx_value = 1000000000000000000\<rparr>]\<rparr>
              else Inr \<lparr>block_timestamp = 100 + 12 * (n - 7), block_transactions = []\<rparr>),
           get_transaction_receipt = (\<lambda>h. Inr \<lparr>gasUsed = 21000\<rparr>),
           get_logs = (\<lambda>f. Inr [])\<rparr>" 7 7
        "[\<lparr>t_block_number = 7, t_timestamp = 100, t_from_address = ''0xA1'',
            t_to_address = Some ''0xB2'', t_value = Finite 1, t_transaction_hash = ''0a'',
            t_gas_price = Finite (3022314549036573 / 151115727451828646838272), t_gas_used = 21000,
            t_gas_fee = Finite (1936908127739503 / 4611686018427387904)\<rparr>]"
        "3022314549036573 / 151115727451828646838272" 21000
        "Finite (1936908127739503 / 4611686018427387904)"]
  by (simp add: Let_def get_transactions_def transaction_record_def truediv_20_gwei
        truediv_1_eth fee_20_gwei_21000 hex_0a)

section \<open>The connectivity check (C10)\<close>

text \<open>
  C10. When \<open>w3.is_connected()\<close> is false, \<open>main\<close> prints the failure line and goes on as
  it does when the check succeeds: it reads the latest block number, extracts
  transactions and logs of the last ten blocks, and builds the views from them.
\<close>

theorem main_proceeds_when_not_connected:
  "fst (main eng (w3\<lparr>is_connected := False\<rparr>)) = connection_failed_line
   \<and> snd (main eng (w3\<lparr>is_connected := False\<rparr>)) = snd (main eng (w3\<lparr>is_connected := True\<rparr>))
   \<and> (eth_block_number w3 = Inr latest_block
        \<and> get_transactions w3 (latest_block - 9) latest_block = Inr txs
        \<and> get_logs_tether w3 (latest_block - 9) latest_block = Inr logs \<longrightarrow>
       (\<exists>r. snd (main eng (w3\<lparr>is_connected := False\<rparr>)) = Inr r
            \<and> complete_view r = df_transactions_complete eng txs logs
            \<and> clean_view r = df_logs_tether_clean (df_transactions_complete eng txs logs)))"
  by (auto simp: main_def Let_def extraction_is_connected split: sum.splits)

theorem main_proceeds_when_not_connected_witness:
  "let eng = \<lparr>ROUND = (\<lambda>d n. d), madrid_timestamp = (\<lambda>ts. ts + 3600)\<rparr>;
       w3 = \<lparr>is_connected = False, eth_block_number = Inr 7,
           get_block = (\<lambda>n full. if n = 7
              then Inr \<lparr>block_timestamp = 100, block_transactions =
                [\<lparr>tx_hash = [0x0a], tx_gasPrice = 20000000000, tx_from = ''0xA1'',
               tx_to = Some ''0xB2'', tx_value = 1000000000000000000\<rparr>]\<rparr>
              else Inr \<lparr>block_timestamp = 100 + 12 * (n - 7), block_transactions = []\<rparr>),
           get_transaction_receipt = (\<lambda>h. Inr \<lparr>gasUsed = 21000\<rparr>),
           get_logs = (\<lambda>f. Inr [])\<rparr>
   in is_connected w3 = False
      \<and> eth_block_number w3 = Inr 7
      \<and> get_logs_tether w3 (7 - 9) 7 = Inr []
      \<and> fst (main eng w3) = connection_failed_line
      \<and> (case snd (main eng w3) of
            Inl err \<Rightarrow> False
          | Inr r \<Rightarrow> map transaction_hash (complete_view r) = [''0a''] \<and> clean_view r = [])"
  using main_proceeds_when_not_connected
    [of "\<lparr>ROUND = (\<lambda>d n. d), madrid_timestamp = (\<lambda>ts. ts + 3600)\<rparr>"
        "\<lparr>is_connected = False, eth_block_number = Inr 7,
           get_block = (\<lambda>n full. if n = 7
              then Inr \<lparr>block_timestamp = 100, block_transactions =
                [\<lparr>tx_hash = [0x0a], tx_gasPrice = 20000000000, tx_from = ''0xA1'',
               tx_to = Some ''0xB2'', tx_value = 1000000000000000000\<rparr>]\<rparr>
              else Inr \<lparr>block_timestamp = 100 + 12 * (n - 7), block_transactions = []\<rparr>),
           get_transaction_receipt = (\<lambda>h. Inr \<lparr>gasUsed = 21000\<rparr>),
           get_logs = (\<lambda>f. Inr [])\<rparr>"
        7
        "[\<lparr>t_block_number = 7, t_timestamp = 100, t_from_address = ''0xA1'',
            t_to_address = Some ''0xB2'', t_value = Finite 1, t_transaction_hash = ''0a'',
            t_gas_price = Finite (3022314549036573 / 151115727451828646838272), t_gas_used = 21000,
            t_gas_fee = Finite (1936908127739503 / 4611686018427387904)\<rparr>]"
        "[]"]
  by (simp add: Let_def main_def get_transactions_def get_logs_tether_def
        transaction_record_def truediv_20_gwei truediv_1_eth fee_20_gwei_21000 hex_0a
        left_join_rows_def select_row_def df_logs_tether_clean_def upto.simps)

section \<open>The token value (C2)\<close>

text \<open>
  C2, as stated: the token value times \<open>10^6\<close> is the raw amount again, for every raw
  amount. It fails: line 94 rounds the converted amount to two decimal places, and the
  schema stores it as \<open>DecimalType(38, 2)\<close>. A payload of one base unit gives the value 0.
\<close>

theorem smallest_unit_is_lost:
  "from_bytes_big [0x01] = 1
   \<and> value_usdt_decimal [0x01] = Inr 0
   \<and> (0 :: rat) * 10 ^ 6 \<noteq> of_int (from_bytes_big [0x01])"
  by (simp add: from_bytes_big_def value_usdt_decimal_def from_wei_mwei_def round_2_def
        round_half_even_def Let_def floor_rat_numeral_div)

text \<open>
  C2, amended: the token value is the raw amount divided by \<open>10^6\<close> and rounded half-even
  to two decimal places. Multiplied by \<open>10^6\<close> it differs from the raw amount by at most
  5000 base units, and it is the raw amount again exactly when the raw amount is a
  multiple of \<open>10^4\<close>. The conversion succeeds for every payload below \<open>10^32 - 5000\<close>.
\<close>

theorem value_usdt_two_places:
  "(value_usdt_decimal data = Inr v \<longrightarrow>
      v = of_int (round_half_even (of_int (from_bytes_big data) / 10 ^ 4)) / 100
      \<and> \<bar>v * 10 ^ 6 - of_int (from_bytes_big data)\<bar> \<le> 5000
      \<and> (v * 10 ^ 6 = of_int (from_bytes_big data) \<longleftrightarrow> 10 ^ 4 dvd from_bytes_big data))
   \<and> (from_bytes_big data < 10 ^ 32 - 5000 \<longrightarrow> (\<exists>u. value_usdt_decimal data = Inr u))"
  using value_usdt_decimal_Inr [of data v] value_usdt_decimal_error [of data v]
    value_usdt_decimal_exact [of data v] value_usdt_decimal_total [of data]
  by blast

theorem value_usdt_two_places_witness:
  "value_usdt_decimal [0x0f, 0x42, 0x40] = Inr 1
   \<and> from_bytes_big [0x0f, 0x42, 0x40] = 1000000
   \<and> (1 :: rat) * 10 ^ 6 = of_int (from_bytes_big [0x0f, 0x42, 0x40])
   \<and> (10 ^ 4 :: int) dvd from_bytes_big [0x0f, 0x42, 0x40]
   \<and> from_bytes_big [0x0f, 0x42, 0x40] < 10 ^ 32 - 5000"
  using value_usdt_two_places [of "[0x0f, 0x42, 0x40]" 1]
  by (simp add: from_bytes_big_def value_usdt_decimal_def from_wei_mwei_def round_2_def
        round_half_even_def Let_def floor_rat_numeral_div)

section \<open>The decoding of a transfer log (C8)\<close>

text \<open>
  C8, as stated: the addresses are the low 20 bytes of topics 1 and 2, and the token value
  is the payload as a big-endian integer scaled by the decimal factor. The second part
  fails by the rounding of line 94: a payload of 15000 base units, 0.015 USDT, is
  recorded as 0.02.
\<close>

theorem transfer_value_is_rounded:
  "let lg = \<lparr>log_data =
              [0x00, 0x00, 0x00, 0x00, 0x00, 0x00, 0x00, 0x00, 0x00, 0x00, 0x00, 0x00, 0x00, 0x00, 0x00, 0x00,
               0x00, 0x00, 0x00, 0x00, 0x00, 0x00, 0x00, 0x00, 0x00, 0x00, 0x00, 0x00, 0x00, 0x00, 0x3a, 0x98],
            log_blockNumber = 7,
            log_topics =
              [0xdd, 0xf2, 0x52, 0xad, 0x1b, 0xe2, 0xc8, 0x9b, 0x69, 0xc2, 0xb0, 0x68, 0xfc, 0x37, 0x8d, 0xaa,
                0x95, 0x2b, 0xa7, 0xf1, 0x63, 0xc4, 0xa1, 0x16, 0x28, 0xf5, 0x5a, 0x4d, 0xf5, 0x23, 0xb3, 0xef] #
               [0x00, 0x00, 0x00, 0x00, 0x00, 0x00, 0x00, 0x00, 0x00, 0x00, 0x00, 0x00, 0xa1, 0xa2, 0xa3, 0xa4,
                0xa5, 0xa6, 0xa7, 0xa8, 0xa9, 0xaa, 0xab, 0xac, 0xad, 0xae, 0xaf, 0xb0, 0xb1, 0xb2, 0xb3, 0xb4] #
               [0x00, 0x00, 0x00, 0x00, 0x00, 0x00, 0x00, 0x00, 0x00, 0x00, 0x00, 0x00, 0xb1, 0xb2, 0xb3, 0xb4,
                0xb5, 0xb6, 0xb7, 0xb8, 0xb9, 0xba, 0xbb, 0xbc, 0xbd, 0xbe, 0xbf, 0xc0, 0xc1, 0xc2, 0xc3, 0xc4] # [],
            log_transactionHash =
              [0x01, 0x02, 0x03, 0x04, 0x05, 0x06, 0x07, 0x08, 0x09, 0x0a, 0x0b, 0x0c, 0x0d, 0x0e, 0x0f, 0x10,
               0x11, 0x12, 0x13, 0x14, 0x15, 0x16, 0x17, 0x18, 0x19, 0x1a, 0x1b, 0x1c, 0x1d, 0x1e, 0x1f, 0x20]\<rparr>;
       w3 = \<lparr>is_connected = True, eth_block_number = Inr 7,
             get_block = (\<lambda>n full. Inr \<lparr>block_timestamp = 100, block_transactions = []\<rparr>),
             get_transaction_receipt = (\<lambda>h. Inl ''not found''),
             get_logs = (\<lambda>f. Inr [])\<rparr>
   in map_sum id l_value_usdt (log_record w3 lg) = Inr (1 / 50)
      \<and> (of_int (from_bytes_big (log_data lg)) :: rat) / 10 ^ 6 = 3 / 200"
  by (simp add: Let_def log_record_def topic_address_def from_bytes_big_def
        value_usdt_decimal_def from_wei_mwei_def round_2_def round_half_even_def
        floor_rat_numeral_div)

text \<open>
  C8, amended: for a log whose topics 1 and 2 have 32 bytes, \<open>from_address\<close> and
  \<open>to_address\<close> are \<open>0x\<close> followed by the hexadecimal digits of the low 20 bytes of topic 1
  and of topic 2, and the token value is the payload, read as a big-endian integer (the
  first byte the most significant), scaled by \<open>10^6\<close> and rounded half-even to two decimal
  places.
\<close>

theorem transfer_log_decoding:
  "(log_record w3 lg = Inr r \<and> length (log_topics lg ! 1) = 32
      \<and> length (log_topics lg ! 2) = 32 \<longrightarrow>
      l_from_address r = ''0x'' @ hex (drop 12 (log_topics lg ! 1))
      \<and> l_to_address r = ''0x'' @ hex (drop 12 (log_topics lg ! 2))
      \<and> l_value_usdt r =
          of_int (round_half_even (of_int (from_bytes_big (log_data lg)) / 10 ^ 6 * 100)) / 100)
   \<and> from_bytes_big [] = 0
   \<and> from_bytes_big (b # bs) = uint b * 256 ^ length bs + from_bytes_big bs"
proof (intro conjI impI)
  assume h: "log_record w3 lg = Inr r \<and> length (log_topics lg ! 1) = 32
      \<and> length (log_topics lg ! 2) = 32"
  then obtain v blk fa ta where v: "value_usdt_decimal (log_data lg) = Inr v"
    and fa: "topic_address (log_topics lg) 1 = Inr fa"
    and ta: "topic_address (log_topics lg) 2 = Inr ta"
    and r: "l_from_address r = fa" "l_to_address r = ta" "l_value_usdt r = v"
    by (auto simp: log_record_def split: sum.splits)
  from topic_address_32 [OF fa] h r(1)
  show "l_from_address r = ''0x'' @ hex (drop 12 (log_topics lg ! 1))" by simp
  from topic_address_32 [OF ta] h r(2)
  show "l_to_address r = ''0x'' @ hex (drop 12 (log_topics lg ! 2))" by simp
  from value_usdt_decimal_Inr [OF v] r(3)
  show "l_value_usdt r =
          of_int (round_half_even (of_int (from_bytes_big (log_data lg)) / 10 ^ 6 * 100)) / 100"
    by simp
next
  show "from_bytes_big [] = 0" by (rule from_bytes_big_Nil)
  show "from_bytes_big (b # bs) = uint b * 256 ^ length bs + from_bytes_big bs"
    by (rule from_bytes_big_Cons)
qed

theorem transfer_log_decoding_witness:
  "let lg = \<lparr>log_data =
              [0x00, 0x00, 0x00, 0x00, 0x00, 0x00, 0x00, 0x00, 0x00, 0x00, 0x00, 0x00, 0x00, 0x00, 0x00, 0x00,
               0x00, 0x00, 0x00, 0x00, 0x00, 0x00, 0x00, 0x00, 0x00, 0x00, 0x00, 0x00, 0x00, 0x0f, 0x42, 0x40],
            log_blockNumber = 7,
            log_topics =
              [0xdd, 0xf2, 0x52, 0xad, 0x1b, 0xe2, 0xc8, 0x9b, 0x69, 0xc2, 0xb0, 0x68, 0xfc, 0x37, 0x8d, 0xaa,
                0x95, 0x2b, 0xa7, 0xf1, 0x63, 0xc4, 0xa1, 0x16, 0x28, 0xf5, 0x5a, 0x4d, 0xf5, 0x23, 0xb3, 0xef] #
               [0x00, 0x00, 0x00, 0x00, 0x00, 0x00, 0x00, 0x00, 0x00, 0x00, 0x00, 0x00, 0xa1, 0xa2, 0xa3, 0xa4,
                0xa5, 0xa6, 0xa7, 0xa8, 0xa9, 0xaa, 0xab, 0xac, 0xad, 0xae, 0xaf, 0xb0, 0xb1, 0xb2, 0xb3, 0xb4] #
               [0x00, 0x00, 0x00, 0x00, 0x00, 0x00, 0x00, 0x00, 0x00, 0x00, 0x00, 0x00, 0xb1, 0xb2, 0xb3, 0xb4,
                0xb5, 0xb6, 0xb7, 0xb8, 0xb9, 0xba, 0xbb, 0xbc, 0xbd, 0xbe, 0xbf, 0xc0, 0xc1, 0xc2, 0xc3, 0xc4] # [],
            log_transactionHash =
              [0x01, 0x02, 0x03, 0x04, 0x05, 0x06, 0x07, 0x08, 0x09, 0x0a, 0x0b, 0x0c, 0x0d, 0x0e, 0x0f, 0x10,
               0x11, 0x12, 0x13, 0x14, 0x15, 0x16, 0x17, 0x18, 0x19, 0x1a, 0x1b, 0x1c, 0x1d, 0x1e, 0x1f, 0x20]\<rparr>;
       w3 = \<lparr>is_connected = True, eth_block_number = Inr 7,
             get_block = (\<lambda>n full. Inr \<lparr>block_timestamp = 100, block_transactions = []\<rparr>),
             get_transaction_receipt = (\<lambda>h. Inl ''not found''),
             get_logs = (\<lambda>f. Inr [])\<rparr>
   in log_record w3 lg =
        Inr \<lparr>l_block_number = 7, l_timestamp = 100,
              l_from_address = ''0xa1a2a3a4a5a6a7a8a9aaabacadaeafb0b1b2b3b4'',
              l_to_address = ''0xb1b2b3b4b5b6b7b8b9babbbcbdbebfc0c1c2c3c4'',
              l_value_usdt = 1,
              l_transaction_hash = ''0102030405060708090a0b0c0d0e0f101112131415161718191a1b1c1d1e1f20''\<rparr>
      \<and> length (log_topics lg ! 1) = 32 \<and> length (log_topics lg ! 2) = 32"
  using transfer_log_decoding
    [of "\<lparr>is_connected = True, eth_block_number = Inr 7,
             get_block = (\<lambda>n full. Inr \<lparr>block_timestamp = 100, block_transactions = []\<rparr>),
             get_transaction_receipt = (\<lambda>h. Inl ''not found''),
             get_logs = (\<lambda>f. Inr [])\<rparr>"
        "\<lparr>log_data =
              [0x00, 0x00, 0x00, 0x00, 0x00, 0x00, 0x00, 0x00, 0x00, 0x00, 0x00, 0x00, 0x00, 0x00, 0x00, 0x00,
               0x00, 0x00, 0x00, 0x00, 0x00, 0x00, 0x00, 0x00, 0x00, 0x00, 0x00, 0x00, 0x00, 0x0f, 0x42, 0x40],
            log_blockNumber = 7,
            log_topics =
              [0xdd, 0xf2, 0x52, 0xad, 0x1b, 0xe2, 0xc8, 0x9b, 0x69, 0xc2, 0xb0, 0x68, 0xfc, 0x37, 0x8d, 0xaa,
                0x95, 0x2b, 0xa7, 0xf1, 0x63, 0xc4, 0xa1, 0x16, 0x28, 0xf5, 0x5a, 0x4d, 0xf5, 0x23, 0xb3, 0xef] #
               [0x00, 0x00, 0x00, 0x00, 0x00, 0x00, 0x00, 0x00, 0x00, 0x00, 0x00, 0x00, 0xa1, 0xa2, 0xa3, 0xa4,
                0xa5, 0xa6, 0xa7, 0xa8, 0xa9, 0xaa, 0xab, 0xac, 0xad, 0xae, 0xaf, 0xb0, 0xb1, 0xb2, 0xb3, 0xb4] #
               [0x00, 0x00, 0x00, 0x00, 0x00, 0x00, 0x00, 0x00, 0x00, 0x00, 0x00, 0x00, 0xb1, 0xb2, 0xb3, 0xb4,
                0xb5, 0xb6, 0xb7, 0xb8, 0xb9, 0xba, 0xbb, 0xbc, 0xbd, 0xbe, 0xbf, 0xc0, 0xc1, 0xc2, 0xc3, 0xc4] # [],
            log_transactionHash =
              [0x01, 0x02, 0x03, 0x04, 0x05, 0x06, 0x07, 0x08, 0x09, 0x0a, 0x0b, 0x0c, 0x0d, 0x0e, 0x0f, 0x10,
               0x11, 0x12, 0x13, 0x14, 0x15, 0x16, 0x17, 0x18, 0x19, 0x1a, 0x1b, 0x1c, 0x1d, 0x1e, 0x1f, 0x20]\<rparr>"
        "\<lparr>l_block_number = 7, l_timestamp = 100,
              l_from_address = ''0xa1a2a3a4a5a6a7a8a9aaabacadaeafb0b1b2b3b4'',
              l_to_address = ''0xb1b2b3b4b5b6b7b8b9babbbcbdbebfc0c1c2c3c4'',
              l_value_usdt = 1,
              l_transaction_hash = ''0102030405060708090a0b0c0d0e0f101112131415161718191a1b1c1d1e1f20''\<rparr>"]
  by (simp add: Let_def log_record_def topic_address_def from_bytes_big_def
        value_usdt_decimal_def from_wei_mwei_def round_2_def round_half_even_def
        floor_rat_numeral_div hex_def hex_byte_def hexdigit_def last40_def)

section \<open>The top 10 by value (C5)\<close>

text \<open>
  C5, as stated: the query returns the 10 rows of greatest native value, ordered by native
  value, with ties broken by input order, and the rounded column does not alter the value
  used. It fails: line 144 orders by \<open>tx_value_eth\<close>, which the view defines as
  \<open>ROUND(t.value, 2)\<close> (line 436), and the order of rows of equal \<open>tx_value_eth\<close> is left
  open. Eleven transactions of \<open>1 / 4096\<close> to \<open>11 / 4096\<close> ether, in this order, all have
  \<open>tx_value_eth = 0\<close>. With the rows of the view in the order 01, 02, 03, 04, 06, 05, 08,
  07, 09, 0b, 0a, the first ten of them are a result of the query, for this view and for
  the view in the order of the transactions: it has 06 before 05, and it has 01, of the
  least native value, and not 0a, of a greater one. The first ten transactions in input
  order are a result as well, without 0b, of the greatest native value.
\<close>

theorem top_10_ties_any_order:
  "let eng = \<lparr>ROUND = round_double, madrid_timestamp = (\<lambda>ts. ts + 3600)\<rparr>;
       txs =
         [\<lparr>t_block_number = 7, t_timestamp = 100, t_from_address = ''0xA1'',
           t_to_address = Some ''0xB2'', t_value = Finite (1 / 4096),
           t_transaction_hash = ''01'', t_gas_price = Finite 0, t_gas_used = 21000,
           t_gas_fee = Finite 0\<rparr>,
          \<lparr>t_block_number = 7, t_timestamp = 100, t_from_address = ''0xA1'',
           t_to_address = Some ''0xB2'', t_value = Finite (2 / 4096),
           t_transaction_hash = ''02'', t_gas_price = Finite 0, t_gas_used = 21000,
           t_gas_fee = Finite 0\<rparr>,
          \<lparr>t_block_number = 7, t_timestamp = 100, t_from_address = ''0xA1'',
           t_to_address = Some ''0xB2'', t_value = Finite (3 / 4096),
           t_transaction_hash = ''03'', t_gas_price = Finite 0, t_gas_used = 21000,
           t_gas_fee = Finite 0\<rparr>,
          \<lparr>t_block_number = 7, t_timestamp = 100, t_from_address = ''0xA1'',
           t_to_address = Some ''0xB2'', t_value = Finite (4 / 4096),
           t_transaction_hash = ''04'', t_gas_price = Finite 0, t_gas_used = 21000,
           t_gas_fee = Finite 0\<rparr>,
          \<lparr>t_block_number = 7, t_timestamp = 100, t_from_address = ''0xA1'',
           t_to_address = Some ''0xB2'', t_value = Finite (5 / 4096),
           t_transaction_hash = ''05'', t_gas_price = Finite 0, t_gas_used = 21000,
           t_gas_fee = Finite 0\<rparr>,
          \<lparr>t_block_number = 7, t_timestamp = 100, t_from_address = ''0xA1'',
           t_to_address = Some ''0xB2'', t_value = Finite (6 / 4096),
           t_transaction_hash = ''06'', t_gas_price = Finite 0, t_gas_used = 21000,
           t_gas_fee = Finite 0\<rparr>,
          \<lparr>t_block_number = 7, t_timestamp = 100, t_from_address = ''0xA1'',
           t_to_address = Some ''0xB2'', t_value = Finite (7 / 4096),
           t_transaction_hash = ''07'', t_gas_price = Finite 0, t_gas_used = 21000,
           t_gas_fee = Finite 0\<rparr>,
          \<lparr>t_block_number = 7, t_timestamp = 100, t_from_address = ''0xA1'',
           t_to_address = Some ''0xB2'', t_value = Finite (8 / 4096),
           t_transaction_hash = ''08'', t_gas_price = Finite 0, t_gas_used = 21000,
           t_gas_fee = Finite 0\<rparr>,
          \<lparr>t_block_number = 7, t_timestamp = 100, t_from_address = ''0xA1'',
           t_to_address = Some ''0xB2'', t_value = Finite (9 / 4096),
           t_transaction_hash = ''09'', t_gas_price = Finite 0, t_gas_used = 21000,
           t_gas_fee = Finite 0\<rparr>,
          \<lparr>t_block_number = 7, t_timestamp = 100, t_from_address = ''0xA1'',
           t_to_address = Some ''0xB2'', t_value = Finite (10 / 4096),
           t_transaction_hash = ''0a'', t_gas_price = Finite 0, t_gas_used = 21000,
           t_gas_fee = Finite 0\<rparr>,
          \<lparr>t_block_number = 7, t_timestamp = 100, t_from_address = ''0xA1'',
           t_to_address = Some ''0xB2'', t_value = Finite (11 / 4096),
           t_transaction_hash = ''0b'', t_gas_price = Finite 0, t_gas_used = 21000,
           t_gas_fee = Finite 0\<rparr>];
       rows = df_transactions_complete eng txs [];
       view = map (\<lambda>i. rows ! i) [0, 1, 2, 3, 5, 4, 7, 6, 8, 10, 9];
       in_input_order = map value_columns (take 10 rows);
       in_another_order = map value_columns (take 10 view)
   in mset view = mset rows
      \<and> tx_value_eth_top_10 view in_another_order
      \<and> tx_value_eth_top_10 rows in_another_order
      \<and> tx_value_eth_top_10 rows in_input_order
      \<and> map v_transaction_hash in_input_order =
          [''01'', ''02'', ''03'', ''04'', ''05'', ''06'', ''07'', ''08'', ''09'', ''0a'']
      \<and> map v_transaction_hash in_another_order =
          [''01'', ''02'', ''03'', ''04'', ''06'', ''05'', ''08'', ''07'', ''09'', ''0b'']
      \<and> set (map v_tx_value_eth (map value_columns rows)) = {Finite 0}
      \<and> t_transaction_hash (txs ! 0) = ''01''
      \<and> t_transaction_hash (txs ! 9) = ''0a''
      \<and> t_transaction_hash (txs ! 10) = ''0b''
      \<and> double_key (t_value (txs ! 0)) < double_key (t_value (txs ! 9))
      \<and> double_key (t_value (txs ! 9)) < double_key (t_value (txs ! 10))"
proof -
  let ?v = "\<lambda>h. \<lparr>v_block_number = 7, v_timestamp = 3700, v_transaction_hash = h,
    v_tx_from_address = ''0xA1'', v_tx_to_address = Some ''0xB2'', v_tx_value_eth = Finite 0\<rparr>"
  let ?key = "\<lambda>v. double_key (v_tx_value_eth v)"
  let ?all = "map ?v [''01'', ''02'', ''03'', ''04'', ''05'', ''06'', ''07'', ''08'', ''09'',
    ''0a'', ''0b'']"
  let ?view = "map ?v [''01'', ''02'', ''03'', ''04'', ''06'', ''05'', ''08'', ''07'', ''09'',
    ''0b'', ''0a'']"
  let ?first = "map ?v [''01'', ''02'', ''03'', ''04'', ''05'', ''06'', ''07'', ''08'', ''09'',
    ''0a'']"
  let ?other = "map ?v [''01'', ''02'', ''03'', ''04'', ''06'', ''05'', ''08'', ''07'', ''09'',
    ''0b'']"
  have a: "order_by_desc_limit ?key 10 ?all ?first"
    by (rule order_by_desc_limitI [where rest = "map ?v [''0b'']"]) simp_all
  have b: "order_by_desc_limit ?key 10 ?all ?other"
    by (rule order_by_desc_limitI [where rest = "map ?v [''0a'']"]) simp_all
  have c: "order_by_desc_limit ?key 10 ?view ?other"
    by (rule order_by_desc_limitI [where rest = "map ?v [''0a'']"]) simp_all
  from a b c show ?thesis
    by (simp add: Let_def tx_value_eth_top_10_def left_join_rows_def select_row_def
          value_columns_def round_double_below_half_cent double_key_def)
qed

text \<open>
  C5, amended: for a view holding the rows of the join in any order, the top-10 query
  returns a result, and every result is the selected columns of \<open>min 10 n\<close> of the \<open>n\<close> rows
  of the view, in descending order of the rounded column \<open>tx_value_eth\<close>, such that no row
  left out has a greater \<open>tx_value_eth\<close> than a row returned. The sequence of the
  \<open>tx_value_eth\<close> returned is the same for every result and every order of the view: the
  (at most) 10 greatest of the view, in descending order. Which of several rows of equal
  \<open>tx_value_eth\<close> are returned, and in what order, is not fixed. The \<open>tx_value_eth\<close> of a
  row returned is \<open>ROUND(value, 2)\<close> of the transaction record of that row, which the query
  leaves as it is.
\<close>

theorem top_10_by_rounded_value:
  assumes "mset view = mset (df_transactions_complete eng txs logs)"
  shows "(\<exists>res. tx_value_eth_top_10 view res)
   \<and> (tx_value_eth_top_10 view result \<longrightarrow>
        length result = min 10 (length view)
        \<and> mset result \<subseteq># mset (map value_columns view)
        \<and> sorted (rev (map (\<lambda>v. double_key (v_tx_value_eth v)) result))
        \<and> (\<forall>v \<in> set result. \<forall>v' \<in># mset (map value_columns view) - mset result.
              double_key (v_tx_value_eth v') \<le> double_key (v_tx_value_eth v))
        \<and> map (\<lambda>v. double_key (v_tx_value_eth v)) result =
            take 10 (rev (sort (map (\<lambda>r. double_key (tx_value_eth r))
              (df_transactions_complete eng txs logs))))
        \<and> (\<forall>v \<in> set result. \<exists>t \<in> set txs.
              v_tx_value_eth v = ROUND eng (t_value t) 2
              \<and> v_transaction_hash v = t_transaction_hash t))"
proof (intro conjI impI)
  let ?key = "\<lambda>v. double_key (v_tx_value_eth v)"
  let ?rows = "map value_columns view"
  show "\<exists>res. tx_value_eth_top_10 view res"
    unfolding tx_value_eth_top_10_def using order_by_desc_limit_sorted by blast
  assume "tx_value_eth_top_10 view result"
  then have adm: "order_by_desc_limit ?key 10 ?rows result"
    by (simp add: tx_value_eth_top_10_def)
  then show "length result = min 10 (length view)"
    and sub: "mset result \<subseteq># mset (map value_columns view)"
    and "sorted (rev (map ?key result))"
    and "\<forall>v \<in> set result. \<forall>v' \<in># mset (map value_columns view) - mset result. ?key v' \<le> ?key v"
    by (simp_all add: order_by_desc_limit_def)
  have keys: "map ?key ?rows = map (\<lambda>r. double_key (tx_value_eth r)) view"
    by (simp add: value_columns_def)
  have "mset (map (\<lambda>r. double_key (tx_value_eth r)) view) =
      mset (map (\<lambda>r. double_key (tx_value_eth r)) (df_transactions_complete eng txs logs))"
    unfolding mset_map using assms by (rule arg_cong)
  then have "sort (map (\<lambda>r. double_key (tx_value_eth r)) view) =
      sort (map (\<lambda>r. double_key (tx_value_eth r)) (df_transactions_complete eng txs logs))"
    by (rule sort_mset_cong)
  with keys have "sort (map ?key ?rows) =
      sort (map (\<lambda>r. double_key (tx_value_eth r)) (df_transactions_complete eng txs logs))"
    by (simp only:)
  with order_by_desc_limit_keys [OF adm]
  show "map ?key result = take 10 (rev (sort (map (\<lambda>r. double_key (tx_value_eth r))
              (df_transactions_complete eng txs logs))))"
    by simp
  show "\<forall>v \<in> set result. \<exists>t \<in> set txs.
          v_tx_value_eth v = ROUND eng (t_value t) 2
          \<and> v_transaction_hash v = t_transaction_hash t"
  proof
    fix v
    assume "v \<in> set result"
    with sub have "v \<in> set (map value_columns view)"
      by (rule mset_subset_mem)
    then obtain r where r: "r \<in> set view" "v = value_columns r"
      by auto
    from assms have "set view = set (df_transactions_complete eng txs logs)"
      by (rule mset_eq_setD)
    with r(1) join_row_value [of r eng txs logs]
    obtain t where "t \<in> set txs" "tx_value_eth r = ROUND eng (t_value t) 2"
      "transaction_hash r = t_transaction_hash t"
      by blast
    with r(2) show "\<exists>t \<in> set txs. v_tx_value_eth v = ROUND eng (t_value t) 2
          \<and> v_transaction_hash v = t_transaction_hash t"
      by (auto simp: value_columns_def)
  qed
qed

theorem top_10_by_rounded_value_witness:
  "let eng = \<lparr>ROUND = round_double, madrid_timestamp = (\<lambda>ts. ts + 3600)\<rparr>;
       txs =
         [\<lparr>t_block_number = 7, t_timestamp = 100, t_from_address = ''0xA1'',
           t_to_address = Some ''0xB2'', t_value = Finite (1),
           t_transaction_hash = ''01'', t_gas_price = Finite 0, t_gas_used = 21000,
           t_gas_fee = Finite 0\<rparr>,
          \<lparr>t_block_number = 7, t_timestamp = 100, t_from_address = ''0xA1'',
           t_to_address = Some ''0xB2'', t_value = Finite (1 / 4096),
           t_transaction_hash = ''02'', t_gas_price = Finite 0, t_gas_used = 21000,
           t_gas_fee = Finite 0\<rparr>,
          \<lparr>t_block_number = 7, t_timestamp = 100, t_from_address = ''0xA1'',
           t_to_address = Some ''0xB2'', t_value = Finite (3),
           t_transaction_hash = ''03'', t_gas_price = Finite 0, t_gas_used = 21000,
           t_gas_fee = Finite 0\<rparr>,
          \<lparr>t_block_number = 7, t_timestamp = 100, t_from_address = ''0xA1'',
           t_to_address = Some ''0xB2'', t_value = Finite (1),
           t_transaction_hash = ''04'', t_gas_price = Finite 0, t_gas_used = 21000,
           t_gas_fee = Finite 0\<rparr>];
       rows = df_transactions_complete eng txs [];
       view = rev rows;
       result =
         [\<lparr>v_block_number = 7, v_timestamp = 3700, v_transaction_hash = ''03'',
           v_tx_from_address = ''0xA1'', v_tx_to_address = Some ''0xB2'',
           v_tx_value_eth = Finite 3\<rparr>,
          \<lparr>v_block_number = 7, v_timestamp = 3700, v_transaction_hash = ''04'',
           v_tx_from_address = ''0xA1'', v_tx_to_address = Some ''0xB2'',
           v_tx_value_eth = Finite 1\<rparr>,
          \<lparr>v_block_number = 7, v_timestamp = 3700, v_transaction_hash = ''01'',
           v_tx_from_address = ''0xA1'', v_tx_to_address = Some ''0xB2'',
           v_tx_value_eth = Finite 1\<rparr>,
          \<lparr>v_block_number = 7, v_timestamp = 3700, v_transaction_hash = ''02'',
           v_tx_from_address = ''0xA1'', v_tx_to_address = Some ''0xB2'',
           v_tx_value_eth = Finite 0\<rparr>]
   in mset view = mset rows
      \<and> map transaction_hash view = [''04'', ''03'', ''02'', ''01'']
      \<and> tx_value_eth_top_10 view result
      \<and> length result = 4
      \<and> map (\<lambda>v. double_key (v_tx_value_eth v)) result = [(1, 3), (1, 1), (1, 1), (1, 0)]
      \<and> take 10 (rev (sort (map (\<lambda>r. double_key (tx_value_eth r)) rows))) =
          [(1, 3), (1, 1), (1, 1), (1, 0)]
      \<and> map (\<lambda>t. ROUND eng (t_value t) 2) txs = [Finite 1, Finite 0, Finite 3, Finite 1]"
proof -
  let ?v = "\<lambda>h x. \<lparr>v_block_number = 7, v_timestamp = 3700, v_transaction_hash = h,
    v_tx_from_address = ''0xA1'', v_tx_to_address = Some ''0xB2'', v_tx_value_eth = Finite x\<rparr>"
  let ?key = "\<lambda>v. double_key (v_tx_value_eth v)"
  have adm: "order_by_desc_limit ?key 10
      [?v ''04'' 1, ?v ''03'' 3, ?v ''02'' 0, ?v ''01'' 1]
      [?v ''03'' 3, ?v ''04'' 1, ?v ''01'' 1, ?v ''02'' 0]"
    by (rule order_by_desc_limitI [where rest = "[]"]) (simp_all add: double_key_def)
  from adm top_10_by_rounded_value
    [of "rev (df_transactions_complete
           \<lparr>ROUND = round_double, madrid_timestamp = (\<lambda>ts. ts + 3600)\<rparr>
           [\<lparr>t_block_number = 7, t_timestamp = 100, t_from_address = ''0xA1'',
             t_to_address = Some ''0xB2'', t_value = Finite (1),
             t_transaction_hash = ''01'', t_gas_price = Finite 0, t_gas_used = 21000,
             t_gas_fee = Finite 0\<rparr>,
            \<lparr>t_block_number = 7, t_timestamp = 100, t_from_address = ''0xA1'',
             t_to_address = Some ''0xB2'', t_value = Finite (1 / 4096),
             t_transaction_hash = ''02'', t_gas_price = Finite 0, t_gas_used = 21000,
             t_gas_fee = Finite 0\<rparr>,
            \<lparr>t_block_number = 7, t_timestamp = 100, t_from_address = ''0xA1'',
             t_to_address = Some ''0xB2'', t_value = Finite (3),
             t_transaction_hash = ''03'', t_gas_price = Finite 0, t_gas_used = 21000,
             t_gas_fee = Finite 0\<rparr>,
            \<lparr>t_block_number = 7, t_timestamp = 100, t_from_address = ''0xA1'',
             t_to_address = Some ''0xB2'', t_value = Finite (1),
             t_transaction_hash = ''04'', t_gas_price = Finite 0, t_gas_used = 21000,
             t_gas_fee = Finite 0\<rparr>]
           [])"
        "\<lparr>ROUND = round_double, madrid_timestamp = (\<lambda>ts. ts + 3600)\<rparr>"
        "[\<lparr>t_block_number = 7, t_timestamp = 100, t_from_address = ''0xA1'',
           t_to_address = Some ''0xB2'', t_value = Finite (1),
           t_transaction_hash = ''01'', t_gas_price = Finite 0, t_gas_used = 21000,
           t_gas_fee = Finite 0\<rparr>,
          \<lparr>t_block_number = 7, t_timestamp = 100, t_from_address = ''0xA1'',
           t_to_address = Some ''0xB2'', t_value = Finite (1 / 4096),
           t_transaction_hash = ''02'', t_gas_price = Finite 0, t_gas_used = 21000,
           t_gas_fee = Finite 0\<rparr>,
          \<lparr>t_block_number = 7, t_timestamp = 100, t_from_address = ''0xA1'',
           t_to_address = Some ''0xB2'', t_value = Finite (3),
           t_transaction_hash = ''03'', t_gas_price = Finite 0, t_gas_used = 21000,
           t_gas_fee = Finite 0\<rparr>,
          \<lparr>t_block_number = 7, t_timestamp = 100, t_from_address = ''0xA1'',
           t_to_address = Some ''0xB2'', t_value = Finite (1),
           t_transaction_hash = ''04'', t_gas_price = Finite 0, t_gas_used = 21000,
           t_gas_fee = Finite 0\<rparr>]"
        "[]"
        "[\<lparr>v_block_number = 7, v_timestamp = 3700, v_transaction_hash = ''03'',
           v_tx_from_address = ''0xA1'', v_tx_to_address = Some ''0xB2'',
           v_tx_value_eth = Finite 3\<rparr>,
          \<lparr>v_block_number = 7, v_timestamp = 3700, v_transaction_hash = ''04'',
           v_tx_from_address = ''0xA1'', v_tx_to_address = Some ''0xB2'',
           v_tx_value_eth = Finite 1\<rparr>,
          \<lparr>v_block_number = 7, v_timestamp = 3700, v_transaction_hash = ''01'',
           v_tx_from_address = ''0xA1'', v_tx_to_address = Some ''0xB2'',
           v_tx_value_eth = Finite 1\<rparr>,
          \<lparr>v_block_number = 7, v_timestamp = 3700, v_transaction_hash = ''02'',
           v_tx_from_address = ''0xA1'', v_tx_to_address = Some ''0xB2'',
           v_tx_value_eth = Finite 0\<rparr>]"]
  show ?thesis
    by (simp add: Let_def tx_value_eth_top_10_def left_join_rows_def select_row_def
          value_columns_def round_double_below_half_cent round_double_1 round_double_3
          double_key_def)
qed

end
